theory Spec2Isabelle
  imports Complex_Main "HOL-Library.Word" "HOL-Library.Multiset" "HOL-Library.Log_Nat"
begin

unbundle bit_operations_syntax

section \<open>Bytes, buffers and the helper functions\<close>

text \<open>
  A Node \<open>Buffer\<close> is a list of bytes; a value that may be \<open>null\<close> is an
  \<open>option\<close>.  JavaScript strings are modelled as \<open>string\<close>; every string the
  functions below build or inspect is ASCII.
\<close>

type_synonym byte = "8 word"
type_synonym buffer = "byte list"

text \<open>\<open>Number.prototype.toString(16)\<close> and \<open>toString(10)\<close> on a non-negative integer.\<close>

definition hexDigit :: "nat \<Rightarrow> char" where
  "hexDigit d = (''0123456789abcdef'') ! (d mod 16)"

fun toString16 :: "nat \<Rightarrow> string" where
  "toString16 n = (if n < 16 then [hexDigit n] else toString16 (n div 16) @ [hexDigit (n mod 16)])"

declare toString16.simps [simp del]

fun toString10 :: "nat \<Rightarrow> string" where
  "toString10 n = (if n < 10 then [hexDigit n] else toString10 (n div 10) @ [hexDigit (n mod 10)])"

declare toString10.simps [simp del]

text \<open>
  \<open>helpers.convertToHexString(buffer, separator)\<close>: the loop appends, for every byte,
  the separator (from the second byte on), a \<open>'0'\<close> when the byte is below 10, and the
  byte in base 16.
\<close>

fun hexLoop :: "string \<Rightarrow> nat \<Rightarrow> buffer \<Rightarrow> string" where
  "hexLoop separator i [] = []"
| "hexLoop separator i (b # bs) =
     (if i > 0 then separator else []) @
     (if unat b < 10 then ''0'' else []) @
     toString16 (unat b) @
     hexLoop separator (Suc i) bs"

definition convertToHexString :: "buffer option \<Rightarrow> string \<Rightarrow> string" where
  "convertToHexString buffer separator =
     (case buffer of
        None \<Rightarrow> []
      | Some bs \<Rightarrow> if length bs = 0 then [] else hexLoop separator 0 bs)"



definition word64BE :: "buffer \<Rightarrow> 64 word" where
  "word64BE bs = foldl (\<lambda>acc b. push_bit 8 acc OR ucast b) 0 (take 8 bs)"


text \<open>
  \<open>helpers.decodeNumericValue(buffer)\<close>.  The three-byte case is the source's
  expression \<open>(buffer[1] << 8) | buffer[2] + (buffer[0] << 16 >>> 0)\<close>, where \<open>+\<close>
  binds tighter than \<open>|\<close>; \<open>undbl\<close> is Node's \<open>readDoubleBE\<close>.
\<close>

definition decodeNumericValue :: "(64 word \<Rightarrow> real) \<Rightarrow> buffer \<Rightarrow> real" where
  "decodeNumericValue undbl buf =
     (if length buf = 0 then 0
      else if length buf = 1 then of_int (uint (buf ! 0))
      else if length buf = 2 then of_int (uint (buf ! 0) * 256 + uint (buf ! 1))
      else if length buf = 3 then
        of_int (push_bit 8 (uint (buf ! 1)) OR (uint (buf ! 2) + push_bit 16 (uint (buf ! 0))))
      else if length buf < 8 then
        of_int (((uint (buf ! 0) * 256 + uint (buf ! 1)) * 256 + uint (buf ! 2)) * 256
                + uint (buf ! 3))
      else undbl (word64BE buf))"

text \<open>\<open>helpers.encodeBlockSize\<close> and \<open>helpers.decodeBlockSize\<close>.\<close>

definition encodeBlockSize :: "nat \<Rightarrow> int" where
  "encodeBlockSize blockSize =
     (let blockSzx = int (floorlog 2 blockSize) - 1 - 4 in
      if blockSzx > 6 then 6 else if blockSzx < 0 then 0 else blockSzx)"

definition decodeBlockSize :: "int \<Rightarrow> int" where
  "decodeBlockSize blockSzx =
     (let s = (if blockSzx < 0 then 0 else if blockSzx > 6 then 6 else blockSzx)
      in push_bit (nat (s + 4)) 1)"

section \<open>EndpointAddress\<close>

record endpoint =
  address :: string
  port :: nat

definition DEFAULT_PORT :: nat where
  "DEFAULT_PORT = 5683"

text \<open>\<open>String.prototype.split\<close> for the separators \<open>'::'\<close> and \<open>':'\<close>.\<close>

fun splitDoubleColon :: "string \<Rightarrow> string \<Rightarrow> string list" where
  "splitDoubleColon cur [] = [rev cur]"
| "splitDoubleColon cur [c] = [rev (c # cur)]"
| "splitDoubleColon cur (c1 # c2 # cs) =
     (if c1 = CHR '':'' \<and> c2 = CHR '':'' then rev cur # splitDoubleColon [] cs
      else splitDoubleColon (c1 # cur) (c2 # cs))"

fun splitColon :: "string \<Rightarrow> string \<Rightarrow> string list" where
  "splitColon cur [] = [rev cur]"
| "splitColon cur (c # cs) =
     (if c = CHR '':'' then rev cur # splitColon [] cs else splitColon (c # cur) cs)"

fun join :: "string \<Rightarrow> string list \<Rightarrow> string" where
  "join sep [] = []"
| "join sep [x] = x"
| "join sep (x # y # ys) = x @ sep @ join sep (y # ys)"

definition toLowerCase :: "string \<Rightarrow> string" where
  "toLowerCase s =
     map (\<lambda>c. let n = (of_char c :: nat) in if 65 \<le> n \<and> n \<le> 90 then char_of (n + 32) else c) s"

definition pad :: "string \<Rightarrow> string" where
  "pad str =
     (let len = length str in
      if len = 4 then str
      else if len = 1 then ''000'' @ str
      else if len = 2 then ''00'' @ str
      else ''0'' @ str)"

definition expandIpv6 :: "string \<Rightarrow> string" where
  "expandIpv6 addr =
     (if length addr = 39 then addr
      else
        let parts = splitDoubleColon [] addr;
            basePart0 = splitColon [] (hd parts);
            secondPart0 = (if length parts = 1 then [] else splitColon [] (parts ! 1));
            basePart = (if length basePart0 = 1 \<and> hd basePart0 = [] then [] else basePart0);
            secondPart = (if length secondPart0 = 1 \<and> hd secondPart0 = [] then [] else secondPart0);
            gap = 8 - (int (length basePart) + int (length secondPart))
        in toLowerCase
             (join '':'' (map pad basePart @ replicate (nat gap) ''0000'' @ map pad secondPart)))"

definition EndpointAddress :: "string \<Rightarrow> nat option \<Rightarrow> endpoint" where
  "EndpointAddress addr p =
     \<lparr> address = (if CHR '':'' \<notin> set addr then addr else expandIpv6 addr),
       port = (case p of None \<Rightarrow> DEFAULT_PORT
               | Some n \<Rightarrow> if n = 0 then DEFAULT_PORT else n) \<rparr>"

definition isIPv6 :: "endpoint \<Rightarrow> bool" where
  "isIPv6 e = (CHR '':'' \<in> set (address e))"

definition EndpointAddress_toString :: "endpoint \<Rightarrow> string" where
  "EndpointAddress_toString e =
     (if isIPv6 e then ''['' @ address e @ '']'' else address e) @
     (if port e \<noteq> DEFAULT_PORT then '':'' @ toString10 (port e) else [])"


section \<open>Option registry, Option and Options\<close>

text \<open>
  \<open>optionNumberRegistry\<close> keeps a table from option numbers to definitions; only the
  set of registered numbers matters below.  The table can grow through the exported
  \<open>register\<close>, so the functions that consult it take it as a parameter;
  \<open>optionNumberRegistry\<close> is the table after the module has loaded.
\<close>

definition optionNumberRegistry :: "nat set" where
  "optionNumberRegistry = {1, 3, 4, 5, 6, 7, 8, 11, 12, 14, 15, 16, 20, 23, 27, 28, 35, 39, 60}"

text \<open>\<open>codeRegistry\<close>: the registered message codes.\<close>

definition codeRegistry :: "nat set" where
  "codeRegistry = {0, 1, 2, 3, 4, 65, 66, 67, 68, 69, 128, 129, 130, 131, 132, 133, 134, 136,
     140, 141, 143, 160, 161, 162, 163, 164, 165}"

datatype error =
    InvalidVersion nat
  | UnknownCode nat
  | UnknownOption nat
  | InvalidPayloadMarker
  | TokenTooLong nat
  | ReaderUnderflow
  | BuilderOutOfRange nat

text \<open>
  An \<open>Option\<close> object holds its definition (determined by the number) and its data,
  which is \<open>null\<close> or a buffer.  The constructor looks the number up and raises when
  it is not registered.
\<close>

record coap_option =
  number :: nat
  data :: "buffer option"

definition Option_new :: "nat set \<Rightarrow> nat \<Rightarrow> buffer option \<Rightarrow> error + coap_option" where
  "Option_new registry n d =
     (if n \<in> registry then Inr \<lparr> number = n, data = d \<rparr> else Inl (UnknownOption n))"

definition getData :: "coap_option \<Rightarrow> buffer" where
  "getData opt = (case data opt of None \<Rightarrow> [] | Some d \<Rightarrow> d)"

definition getOptionNibble :: "nat \<Rightarrow> nat" where
  "getOptionNibble v = (if v \<le> 12 then v else if v \<le> 0xFF + 13 then 13 else 14)"

text \<open>
  The buffer builder and reader come from the package \<open>h5.buffers\<close>.  The builder
  refuses a number outside the range of the field it is asked to write, and the reader
  refuses to hand out more bytes than it holds; both are raised errors in the model.
\<close>

definition pushUInt8 :: "nat \<Rightarrow> error + buffer" where
  "pushUInt8 v = (if v \<le> 0xFF then Inr [of_nat v] else Inl (BuilderOutOfRange v))"

definition pushUInt16 :: "nat \<Rightarrow> error + buffer" where
  "pushUInt16 v =
     (if v \<le> 0xFFFF then Inr [of_nat (v div 256), of_nat v] else Inl (BuilderOutOfRange v))"

definition pushExtendedOptionValue :: "nat \<Rightarrow> nat \<Rightarrow> error + buffer" where
  "pushExtendedOptionValue nibble v =
     (if nibble = 13 then pushUInt8 (v - 13)
      else if nibble = 14 then pushUInt16 (v - 269)
      else Inr [])"

text \<open>\<open>Option.prototype.serialize(bufferBuilder, optionDelta)\<close>: the bytes it appends.\<close>

definition Option_serialize :: "coap_option \<Rightarrow> nat \<Rightarrow> error + buffer" where
  "Option_serialize opt optionDelta =
     (let optionLength = (case data opt of None \<Rightarrow> 0 | Some d \<Rightarrow> length d);
          deltaNibble = getOptionNibble optionDelta;
          lengthNibble = getOptionNibble optionLength;
          header = (of_nat (push_bit 4 deltaNibble OR lengthNibble) :: byte)
      in case pushExtendedOptionValue deltaNibble optionDelta of
           Inl e \<Rightarrow> Inl e
         | Inr extDelta \<Rightarrow>
             (case pushExtendedOptionValue lengthNibble optionLength of
                Inl e \<Rightarrow> Inl e
              | Inr extLength \<Rightarrow>
                  Inr ([header] @ extDelta @ extLength @
                       (if optionLength > 0 then getData opt else []))))"

text \<open>
  \<open>Options.prototype.serialize\<close>: the list is sorted by number (\<open>Array.prototype.sort\<close>
  with the comparator \<open>a.getNumber() - b.getNumber()\<close>, a stable sort) and every option is
  written with the difference to the number before it.
\<close>

fun serializeLoop :: "nat \<Rightarrow> coap_option list \<Rightarrow> error + buffer" where
  "serializeLoop lastOptionNumber [] = Inr []"
| "serializeLoop lastOptionNumber (opt # opts) =
     (case Option_serialize opt (number opt - lastOptionNumber) of
        Inl e \<Rightarrow> Inl e
      | Inr bs \<Rightarrow>
          (case serializeLoop (number opt) opts of
             Inl e \<Rightarrow> Inl e
           | Inr rest \<Rightarrow> Inr (bs @ rest)))"

definition Options_sort :: "coap_option list \<Rightarrow> coap_option list" where
  "Options_sort opts = sort_key number opts"

definition Options_serialize :: "coap_option list \<Rightarrow> error + buffer" where
  "Options_serialize opts = serializeLoop 0 (Options_sort opts)"

text \<open>The reader's operations: the value read and the bytes that remain.\<close>

definition shiftByte :: "buffer \<Rightarrow> error + (byte \<times> buffer)" where
  "shiftByte buf = (case buf of [] \<Rightarrow> Inl ReaderUnderflow | b # bs \<Rightarrow> Inr (b, bs))"

definition shiftUInt16 :: "buffer \<Rightarrow> error + (nat \<times> buffer)" where
  "shiftUInt16 buf =
     (case buf of
        b0 # b1 # bs \<Rightarrow> Inr (unat b0 * 256 + unat b1, bs)
      | _ \<Rightarrow> Inl ReaderUnderflow)"

definition shiftBuffer :: "nat \<Rightarrow> buffer \<Rightarrow> error + (buffer \<times> buffer)" where
  "shiftBuffer n buf =
     (if n \<le> length buf then Inr (take n buf, drop n buf) else Inl ReaderUnderflow)"

text \<open>The extended delta or length that follows an option header (nibbles 13 and 14).\<close>

definition readExtended :: "nat \<Rightarrow> buffer \<Rightarrow> error + (nat \<times> buffer)" where
  "readExtended nibble buf =
     (if nibble = 13 then
        (case shiftByte buf of Inl e \<Rightarrow> Inl e | Inr (b, r) \<Rightarrow> Inr (unat b + 13, r))
      else if nibble = 14 then
        (case shiftUInt16 buf of Inl e \<Rightarrow> Inl e | Inr (v, r) \<Rightarrow> Inr (v + 269, r))
      else Inr (nibble, buf))"

text \<open>
  One round of the loop of \<open>Options.unserialize\<close> after the header byte \<open>h\<close> has been
  shifted and found different from \<open>0xFF\<close>: the option read and the bytes that remain.
\<close>

definition unserializeOption ::
  "nat set \<Rightarrow> nat \<Rightarrow> byte \<Rightarrow> buffer \<Rightarrow> error + (coap_option \<times> buffer)" where
  "unserializeOption registry lastOptionNumber h buf =
     (let optionDelta = unat (drop_bit 4 (h AND 240));
          optionLength = unat (h AND 15)
      in if (optionDelta = 15 \<and> optionLength \<noteq> 15) \<or> (optionLength = 15 \<and> optionDelta \<noteq> 15)
         then Inl InvalidPayloadMarker
         else
           (case readExtended optionDelta buf of
              Inl e \<Rightarrow> Inl e
            | Inr (delta, r1) \<Rightarrow>
                (case readExtended optionLength r1 of
                   Inl e \<Rightarrow> Inl e
                 | Inr (len, r2) \<Rightarrow>
                     (case (if len > 0
                            then (case shiftBuffer len r2 of
                                    Inl e \<Rightarrow> Inl e
                                  | Inr (d, r3) \<Rightarrow> Inr (Some d, r3))
                            else Inr (None, r2)) of
                        Inl e \<Rightarrow> Inl e
                      | Inr (optionData, r3) \<Rightarrow>
                          (case Option_new registry (lastOptionNumber + delta) optionData of
                             Inl e \<Rightarrow> Inl e
                           | Inr opt \<Rightarrow> Inr (opt, r3))))))"

lemma unserializeOption_length:
  assumes "unserializeOption registry lastOptionNumber h buf = Inr (opt, r)"
  shows "length r \<le> length buf"
  using assms
  by (auto simp: unserializeOption_def readExtended_def shiftByte_def shiftUInt16_def
      shiftBuffer_def Option_new_def Let_def
      split: if_splits sum.splits list.splits prod.splits)

text \<open>
  \<open>Options.unserialize(bufferReader, message)\<close>: the options added to the message, in
  the order read, and what the reader still holds when the function returns (at the
  payload marker, or at the end of the buffer).
\<close>

function unserialize ::
  "nat set \<Rightarrow> nat \<Rightarrow> buffer \<Rightarrow> coap_option list \<Rightarrow> error + (coap_option list \<times> buffer)" where
  "unserialize registry lastOptionNumber [] acc = Inr (acc, [])"
| "unserialize registry lastOptionNumber (h # buf) acc =
     (if h = 0xFF then Inr (acc, buf)
      else
        (case unserializeOption registry lastOptionNumber h buf of
           Inl e \<Rightarrow> Inl e
         | Inr (opt, r) \<Rightarrow> unserialize registry (number opt) r (acc @ [opt])))"
  by pat_completeness auto
termination
  by (relation "measure (\<lambda>(registry, lastOptionNumber, buf, acc). length buf)")
     (auto dest: unserializeOption_length)

section \<open>Message\<close>

datatype msg_type = CON | NON | ACK | RST

definition typeNumber :: "msg_type \<Rightarrow> nat" where
  "typeNumber t = (case t of CON \<Rightarrow> 0 | NON \<Rightarrow> 1 | ACK \<Rightarrow> 2 | RST \<Rightarrow> 3)"

text \<open>
  \<open>Message.prototype.setType\<close> on a number.  The only caller below passes two bits
  of the first header byte, so the number is one of 0, 1, 2, 3 and the \<open>default\<close>
  branch of the source, which raises, is never taken.
\<close>

definition typeOfNumber :: "nat \<Rightarrow> msg_type" where
  "typeOfNumber n =
     (if n = 0 then CON else if n = 1 then NON else if n = 2 then ACK else RST)"

record message =
  msgType :: msg_type
  code :: nat
  msgId :: nat
  token :: "buffer option"
  options :: "coap_option list"
  payload :: "buffer option"
  remoteEndpoint :: endpoint
  timestamp :: int

text \<open>\<open>new Message()\<close>.\<close>

definition Message_new :: message where
  "Message_new =
     \<lparr> msgType = CON, code = 0, msgId = 0, token = None, options = [], payload = None,
       remoteEndpoint = EndpointAddress ''127.0.0.1'' None, timestamp = - 1 \<rparr>"

definition getTokenLength :: "message \<Rightarrow> nat" where
  "getTokenLength m = (case token m of None \<Rightarrow> 0 | Some t \<Rightarrow> length t)"

definition getToken :: "message \<Rightarrow> buffer" where
  "getToken m = (case token m of None \<Rightarrow> [] | Some t \<Rightarrow> t)"

definition getTokenString :: "message \<Rightarrow> string" where
  "getTokenString m = convertToHexString (token m) []"

definition getExchangeKey :: "message \<Rightarrow> string" where
  "getExchangeKey m = EndpointAddress_toString (remoteEndpoint m) @ ''|'' @ getTokenString m"

definition getTransactionKey :: "message \<Rightarrow> string" where
  "getTransactionKey m = EndpointAddress_toString (remoteEndpoint m) @ ''#'' @ toString10 (msgId m)"

text \<open>\<open>setToken\<close> and \<open>setPayload\<close> on a buffer: an empty one is stored as \<open>null\<close>.\<close>

definition setToken :: "buffer \<Rightarrow> message \<Rightarrow> error + message" where
  "setToken t m =
     (if length t = 0 then Inr (m\<lparr>token := None\<rparr>)
      else if length t > 8 then Inl (TokenTooLong (length t))
      else Inr (m\<lparr>token := Some t\<rparr>))"

definition setPayload :: "buffer \<Rightarrow> message \<Rightarrow> message" where
  "setPayload p m = (if length p = 0 then m\<lparr>payload := None\<rparr> else m\<lparr>payload := Some p\<rparr>)"

definition getPayload :: "message \<Rightarrow> buffer" where
  "getPayload m = (case payload m of None \<Rightarrow> [] | Some p \<Rightarrow> p)"

text \<open>
  \<open>Message.prototype.toBuffer\<close>.  The header is one unsigned 32-bit number built with
  \<open><<\<close> and \<open>|\<close> and written most significant byte first.
\<close>

definition headerWord :: "message \<Rightarrow> 32 word" where
  "headerWord m =
     1073741824 OR push_bit 28 (of_nat (typeNumber (msgType m)))
       OR push_bit 24 (of_nat (getTokenLength m))
       OR push_bit 16 (of_nat (code m))
       OR of_nat (msgId m)"

definition pushUInt32 :: "32 word \<Rightarrow> buffer" where
  "pushUInt32 w = [ucast (drop_bit 24 w), ucast (drop_bit 16 w), ucast (drop_bit 8 w), ucast w]"

definition toBuffer :: "message \<Rightarrow> error + buffer" where
  "toBuffer m =
     (let header = pushUInt32 (headerWord m);
          tok = (if getTokenLength m > 0 then (case token m of None \<Rightarrow> [] | Some t \<Rightarrow> t)
                 else [])
      in case (if options m \<noteq> [] then Options_serialize (options m) else Inr []) of
           Inl e \<Rightarrow> Inl e
         | Inr opts \<Rightarrow>
             Inr (header @ tok @ opts @
                  (case payload m of None \<Rightarrow> [] | Some p \<Rightarrow> [0xFF] @ p)))"

text \<open>
  \<open>Message.fromBuffer(buffer)\<close>; \<open>now\<close> is the clock read by \<open>setTimestamp()\<close>.
  Reading \<open>buffer[0]\<close> of an empty buffer gives \<open>undefined\<close>, which \<open>>> 6\<close> turns
  into 0.
\<close>

definition fromBuffer :: "nat set \<Rightarrow> int \<Rightarrow> buffer \<Rightarrow> error + message" where
  "fromBuffer registry now buffer =
     (let version = (case buffer of [] \<Rightarrow> 0 | b # _ \<Rightarrow> unat (drop_bit 6 b))
      in if version \<noteq> 1 then Inl (InvalidVersion version)
      else
        (case shiftByte buffer of
           Inl e \<Rightarrow> Inl e
         | Inr (firstByte, r1) \<Rightarrow>
         (let ty = typeOfNumber (unat (drop_bit 4 (firstByte AND 48))) in
         (case shiftByte r1 of
            Inl e \<Rightarrow> Inl e
          | Inr (c, r2) \<Rightarrow>
         if unat c \<notin> codeRegistry then Inl (UnknownCode (unat c))
         else
         (case shiftUInt16 r2 of
            Inl e \<Rightarrow> Inl e
          | Inr (i, r3) \<Rightarrow>
         (let m0 = Message_new\<lparr>timestamp := now, msgType := ty, code := unat c, msgId := i\<rparr>;
              tokenLength = unat (firstByte AND 15)
          in case (if tokenLength > 0
                   then (case shiftBuffer tokenLength r3 of
                           Inl e \<Rightarrow> Inl e
                         | Inr (t, r4) \<Rightarrow>
                             (case setToken t m0 of Inl e \<Rightarrow> Inl e | Inr m1 \<Rightarrow> Inr (m1, r4)))
                   else Inr (m0, r3)) of
               Inl e \<Rightarrow> Inl e
             | Inr (m1, r4) \<Rightarrow>
                 if length r4 = 0 then Inr m1
                 else
                   (case unserialize registry 0 r4 [] of
                      Inl e \<Rightarrow> Inl e
                    | Inr (opts, r5) \<Rightarrow>
                        (let m2 = m1\<lparr>options := opts\<rparr>
                         in if length r5 > 0 then Inr (setPayload r5 m2) else Inr m2))))))))"


section \<open>TokenManager\<close>

text \<open>
  The fields of a \<open>TokenManager\<close>.  \<open>acquiredTokens\<close> is an object used as a set
  of token strings; times are milliseconds as returned by \<open>Date.now()\<close>, which the
  functions below receive as the argument \<open>now\<close>.
\<close>

record tokenManager =
  maxSize :: nat
  emptySafekeepingTime :: int
  currentValue :: "nat list"
  currentIndex :: nat
  maxReached :: bool
  acquiredTokens :: "string set"
  emptyReleaseTime :: int

definition MAX_TOKEN_SIZE :: nat where
  "MAX_TOKEN_SIZE = 8"

definition ZERO_TOKEN_ARRAY :: "nat list" where
  "ZERO_TOKEN_ARRAY = [0, 0, 0, 0, 0, 0, 0, 0]"

text \<open>\<open>new TokenManager(options)\<close> with the two optional settings.\<close>

definition TokenManager :: "nat option \<Rightarrow> int option \<Rightarrow> tokenManager" where
  "TokenManager optMaxSize optSafekeeping =
     \<lparr> maxSize = (case optMaxSize of
                     None \<Rightarrow> MAX_TOKEN_SIZE
                   | Some n \<Rightarrow> if n \<ge> 1 \<and> n \<le> MAX_TOKEN_SIZE then n else MAX_TOKEN_SIZE),
       emptySafekeepingTime = (case optSafekeeping of
                     None \<Rightarrow> 48000
                   | Some t \<Rightarrow> if t = 0 then 48000 else t),
       currentValue = [0],
       currentIndex = 0,
       maxReached = False,
       acquiredTokens = {},
       emptyReleaseTime = 0 \<rparr>"

text \<open>The token string of the counter, an array of numbers below 256.\<close>

definition valueString :: "nat list \<Rightarrow> string" where
  "valueString v = convertToHexString (Some (map of_nat v)) []"

definition isAcquired :: "tokenManager \<Rightarrow> string \<Rightarrow> bool" where
  "isAcquired tm t = (t \<in> acquiredTokens tm)"

definition isValueMaxed :: "tokenManager \<Rightarrow> bool" where
  "isValueMaxed tm = list_all (\<lambda>x. x = 0xFF) (currentValue tm)"

definition resizeValue :: "tokenManager \<Rightarrow> tokenManager" where
  "resizeValue tm =
     tm\<lparr> currentValue :=
           (if length (currentValue tm) + 1 > maxSize tm then [0]
            else take (length (currentValue tm) + 1) ZERO_TOKEN_ARRAY),
         currentIndex := 0 \<rparr>"

text \<open>
  The inner loop of \<open>incrementValue\<close>: while the element at the index is \<open>0xFF\<close>
  it is set to 0 and the index moves on.  Reading past the end of the array gives
  \<open>undefined\<close>, which ends the loop.
\<close>

function carry :: "nat list \<Rightarrow> nat \<Rightarrow> nat list \<times> nat" where
  "carry v i = (if i < length v \<and> v ! i = 0xFF then carry (v[i := 0]) (Suc i) else (v, i))"
  by pat_completeness auto
termination
  by (relation "measure (\<lambda>(v, i). length v - i)") auto

declare carry.simps [simp del]

text \<open>
  \<open>incrementValue\<close>.  It is entered only from \<open>nextValue\<close>, when some element is
  not \<open>0xFF\<close>, and with the index at 0, so the index it increments is inside the
  array; outside the array the list update of the model leaves the value unchanged.
\<close>

definition incrementValue :: "tokenManager \<Rightarrow> tokenManager" where
  "incrementValue tm =
     (let v = currentValue tm; i = currentIndex tm
      in if i < length v \<and> v ! i = 0xFF
         then (case carry v i of
                 (v', i') \<Rightarrow> tm\<lparr> currentValue := v'[i' := v' ! i' + 1], currentIndex := 0 \<rparr>)
         else tm\<lparr> currentValue := v[i := v ! i + 1] \<rparr>)"

definition nextValue :: "tokenManager \<Rightarrow> tokenManager" where
  "nextValue tm = (if isValueMaxed tm then resizeValue tm else incrementValue tm)"

text \<open>
  The loop \<open>do nextValue() while (isAcquired(currentValue))\<close> of \<open>acquire\<close>.  It
  does not end when every value of the cycle is acquired; not returning is \<open>None\<close>.
\<close>

partial_function (option) skipAcquired :: "tokenManager \<Rightarrow> tokenManager option" where
  "skipAcquired tm =
     (let tm' = nextValue tm
      in if isAcquired tm' (valueString (currentValue tm')) then skipAcquired tm' else Some tm')"

text \<open>\<open>TokenManager.prototype.acquire\<close>: the new state and the token returned.\<close>

definition acquire :: "tokenManager \<Rightarrow> int \<Rightarrow> (tokenManager \<times> buffer) option" where
  "acquire tm now =
     (if \<not> isAcquired tm [] \<and> now - emptyReleaseTime tm > emptySafekeepingTime tm
      then Some (tm\<lparr> acquiredTokens := insert [] (acquiredTokens tm) \<rparr>, [])
      else
        (case (if \<not> maxReached tm then Some (nextValue tm) else skipAcquired tm) of
           None \<Rightarrow> None
         | Some tm' \<Rightarrow>
             Some (tm'\<lparr> acquiredTokens :=
                          insert (valueString (currentValue tm')) (acquiredTokens tm') \<rparr>,
                   map of_nat (currentValue tm'))))"

text \<open>\<open>TokenManager.prototype.release\<close> on a token string.\<close>

definition release :: "tokenManager \<Rightarrow> int \<Rightarrow> string \<Rightarrow> tokenManager" where
  "release tm now t =
     (let tm' = (if t = [] then tm\<lparr> emptyReleaseTime := now \<rparr> else tm)
      in tm'\<lparr> acquiredTokens := acquiredTokens tm' - {t} \<rparr>)"

text \<open>
  A number of consecutive calls of \<open>acquire\<close> with no call of \<open>release\<close> between
  them: the final state and the tokens returned, in order.
\<close>

fun acquireMany :: "nat \<Rightarrow> tokenManager \<Rightarrow> int \<Rightarrow> (tokenManager \<times> buffer list) option" where
  "acquireMany 0 tm now = Some (tm, [])"
| "acquireMany (Suc n) tm now =
     (case acquire tm now of
        None \<Rightarrow> None
      | Some (tm', t) \<Rightarrow>
          (case acquireMany n tm' now of
             None \<Rightarrow> None
           | Some (tm'', ts) \<Rightarrow> Some (tm'', t # ts)))"

section \<open>BlockOption and the option accessors of Message\<close>

text \<open>
  A \<open>BlockOption\<close> object; the fields \<open>num\<close>, \<open>m\<close>, \<open>szx\<close> and \<open>size\<close> of the
  source carry the prefix \<open>b\<close>.
\<close>

record BlockOption =
  boptionNumber :: int
  bnum :: int
  bm :: bool
  bszx :: int
  bsize :: int

definition BlockOption_new :: "int \<Rightarrow> int \<Rightarrow> bool \<Rightarrow> int \<Rightarrow> BlockOption" where
  "BlockOption_new optionNumber' num' m' szx' =
     \<lparr> boptionNumber = optionNumber', bnum = num', bm = m', bszx = szx',
       bsize = decodeBlockSize szx' \<rparr>"

text \<open>\<open>BlockOption.decode(data, optionNumber)\<close>.\<close>

definition BlockOption_decode :: "buffer \<Rightarrow> int \<Rightarrow> BlockOption" where
  "BlockOption_decode d optionNumber' =
     (let m' = (length d > 0 \<and> (last d AND 8) = 8);
          szx' = (if length d > 0 then uint (last d AND 7) else 0);
          num' = (if length d = 0 then 0
                  else if length d = 1 then uint (d ! 0)
                  else if length d = 2 then uint (d ! 0) * 256 + uint (d ! 1)
                  else push_bit 16 (uint (d ! 0)) OR (uint (d ! 1) * 256 + uint (d ! 2)))
      in BlockOption_new (if optionNumber' = 0 then - 1 else optionNumber') (drop_bit 4 num') m' szx')"

definition getFirstOption :: "nat \<Rightarrow> message \<Rightarrow> coap_option option" where
  "getFirstOption n msg = find (\<lambda>opt. number opt = n) (options msg)"

definition getNumericValue :: "(64 word \<Rightarrow> real) \<Rightarrow> coap_option \<Rightarrow> real" where
  "getNumericValue undbl opt =
     (case data opt of None \<Rightarrow> 0 | Some d \<Rightarrow> decodeNumericValue undbl d)"

definition OBSERVE :: nat where "OBSERVE = 6"
definition MAX_AGE :: nat where "MAX_AGE = 14"
definition BLOCK2 :: nat where "BLOCK2 = 23"
definition BLOCK1 :: nat where "BLOCK1 = 27"
definition EMPTY :: nat where "EMPTY = 0"
definition GET :: nat where "GET = 1"

definition getObserve :: "(64 word \<Rightarrow> real) \<Rightarrow> message \<Rightarrow> real" where
  "getObserve undbl msg =
     (case getFirstOption OBSERVE msg of None \<Rightarrow> - 1 | Some opt \<Rightarrow> getNumericValue undbl opt)"

definition getMaxAge :: "(64 word \<Rightarrow> real) \<Rightarrow> message \<Rightarrow> real" where
  "getMaxAge undbl msg =
     (case getFirstOption MAX_AGE msg of None \<Rightarrow> - 1 | Some opt \<Rightarrow> getNumericValue undbl opt)"

definition getBlockOption :: "nat \<Rightarrow> message \<Rightarrow> BlockOption option" where
  "getBlockOption n msg =
     (case getFirstOption n msg of
        None \<Rightarrow> None
      | Some opt \<Rightarrow> Some (BlockOption_decode (getData opt) (int n)))"

definition getBlock2 :: "message \<Rightarrow> BlockOption option" where
  "getBlock2 msg = getBlockOption BLOCK2 msg"

definition isConfirmable :: "message \<Rightarrow> bool" where
  "isConfirmable msg = (msgType msg = CON)"

text \<open>\<open>Message.prototype.createReply(type, code)\<close>.\<close>

definition createReply :: "message \<Rightarrow> msg_type \<Rightarrow> nat \<Rightarrow> message" where
  "createReply msg ty c =
     Message_new\<lparr> code := c, msgType := ty, msgId := msgId msg,
                  remoteEndpoint := remoteEndpoint msg \<rparr>"

section \<open>ClientExchange\<close>

text \<open>
  The exchange object, with the two settings of its \<open>options\<close> that the functions
  below read.  Events are emitted through \<open>setImmediate\<close>, in the order of the calls;
  an emitted event is recorded with the object \<open>emit\<close> is invoked on, its name and its
  arguments.  The calls a handler makes on the client's tables, timers and socket are
  recorded in the same list, in order.
\<close>

record exchange =
  request :: message
  blockSizeOption :: int
  exchangeTimeoutOption :: real
  exchangeKey :: string
  transactionKey :: "string option"
  currentBlock1 :: "BlockOption option"
  blockwiseResponsePossible :: bool
  currentBlock2 :: "BlockOption option"
  blocks2 :: "message list option"
  observer :: bool
  lastObserveValue :: real
  lastResponseTime :: int
  lastMaxAge :: real
  serverInitiative :: bool

datatype event_arg = MsgArg message | BlockArg BlockOption

datatype emitter =
    ExchangeRequest \<comment> \<open>the request of the exchange, \<open>this.request\<close>\<close>
  | ExchangeObject \<comment> \<open>the exchange itself, \<open>this\<close> inside a method of the exchange\<close>
  | TransactionRequest \<comment> \<open>the request of the transaction that is finished\<close>
  | TransactionParentRequest \<comment> \<open>its \<open>parentRequest\<close>\<close>

datatype effect =
    Emit emitter string "event_arg list"
  | CacheReply string message \<comment> \<open>\<open>this.replies[key] = reply\<close>\<close>
  | SendMessage message \<comment> \<open>\<open>Client.sendMessage(message)\<close>\<close>
  | ScheduleTimeout real \<comment> \<open>\<open>exchange.scheduleTimeout()\<close>, with the delay\<close>
  | RequestNextBlock int int \<comment> \<open>\<open>Client.requestNextBlock\<close>, with NUM and SZX asked for\<close>
  | FinishExchange \<comment> \<open>\<open>Client.finishExchange(exchange)\<close>\<close>
  | FinishTransaction string \<comment> \<open>the transaction is deleted and destroyed\<close>
  | Retransmit message nat \<comment> \<open>\<open>Client.sendMessage(request, retries)\<close>\<close>
  | ClientEmit string "event_arg list" \<comment> \<open>\<open>client.emit(name, ...)\<close>, at once\<close>



definition isSubscribed :: "exchange \<Rightarrow> bool" where
  "isSubscribed ex = (lastObserveValue ex \<noteq> - 1)"


text \<open>
  \<open>ClientExchange.prototype.cancel\<close> and the part of \<open>Client.finishExchange\<close> that
  acts on the exchange; afterwards the exchange is deleted and destroyed.
\<close>

definition cancel :: "exchange \<Rightarrow> exchange \<times> effect list" where
  "cancel ex =
     (ex\<lparr> observer := False, lastObserveValue := - 1, lastResponseTime := 0,
          lastMaxAge := - 1 \<rparr>,
      [Emit ExchangeRequest ''cancelled'' []])"

definition finishExchange :: "exchange \<Rightarrow> effect list" where
  "finishExchange ex = (if observer ex then snd (cancel ex) else []) @ [FinishExchange]"

definition isBlockwiseRequest :: "exchange \<Rightarrow> bool" where
  "isBlockwiseRequest ex = (currentBlock1 ex \<noteq> None)"

definition isBlockwiseResponse :: "exchange \<Rightarrow> bool" where
  "isBlockwiseResponse ex = (currentBlock2 ex \<noteq> None)"

text \<open>
  \<open>isValidBlock2(block2, observe)\<close>; \<open>observe\<close> is \<open>None\<close> when the caller leaves
  the argument out.  The last line reads \<open>this.blocks2[0]\<close>: \<open>blocks2\<close> holds at
  least one block whenever \<open>currentBlock2\<close> is set (see \<open>handleBlock2Response\<close> and
  \<open>setResponse\<close>); the model answers \<open>False\<close> in the other case, where the source
  would raise.
\<close>

definition isValidBlock2 ::
  "(64 word \<Rightarrow> real) \<Rightarrow> exchange \<Rightarrow> BlockOption \<Rightarrow> real option \<Rightarrow> bool" where
  "isValidBlock2 undbl ex block2 observe =
     (if bnum block2 = 0 then True
      else
        (case currentBlock2 ex of
           None \<Rightarrow> bnum block2 = 0
         | Some cur \<Rightarrow>
             bnum block2 = bnum cur + 1 \<and> bszx block2 \<le> bszx cur
             \<and> (case blocks2 ex of
                    Some (first # _) \<Rightarrow> observe = Some (getObserve undbl first)
                  | _ \<Rightarrow> False)))"

text \<open>\<open>adjustBlockToSize(block, newSize)\<close>; the block size is a positive integer.\<close>

definition adjustBlockToSize :: "BlockOption \<Rightarrow> int \<Rightarrow> BlockOption" where
  "adjustBlockToSize block newSize =
     block\<lparr> bnum := \<lceil>real_of_int ((bnum block + 1) * bsize block) / real_of_int newSize\<rceil> - 1,
            bszx := encodeBlockSize (nat newSize),
            bsize := newSize \<rparr>"

text \<open>
  \<open>setCurrentBlock2(block2)\<close>.  \<open>currentBlock2\<close> and \<open>block2\<close> are one object, so
  the adjustment is seen by the test \<open>block2.num === 0\<close> and by the caller; the function
  returns the block as it is afterwards.
\<close>

definition setCurrentBlock2 :: "exchange \<Rightarrow> BlockOption \<Rightarrow> exchange \<times> BlockOption" where
  "setCurrentBlock2 ex block2 =
     (let block2' = (if bsize block2 > blockSizeOption ex
                     then adjustBlockToSize block2 (blockSizeOption ex) else block2);
          ex1 = ex\<lparr> currentBlock2 := Some block2' \<rparr>
      in (if bnum block2' = 0 then ex1\<lparr> blocks2 := None \<rparr> else ex1, block2'))"

text \<open>\<open>setResponse(response)\<close>.\<close>

definition setResponse ::
  "(64 word \<Rightarrow> real) \<Rightarrow> exchange \<Rightarrow> message \<Rightarrow> exchange \<times> effect list" where
  "setResponse undbl ex response =
     (ex\<lparr> blocks2 := None, currentBlock2 := None, currentBlock1 := None,
          lastObserveValue := getObserve undbl response,
          lastResponseTime := timestamp response,
          lastMaxAge := getMaxAge undbl response \<rparr>,
      [Emit ExchangeRequest ''response'' [MsgArg response]])"

text \<open>
  \<open>finalizeBlock2Response()\<close>.  The response is a new message (its timestamp stays
  \<open>-1\<close>) that takes type, code, ID, token, options (\<open>getAllOptions()\<close> returns them
  sorted) and endpoint from the last block, and the concatenated payloads.  The token of
  a block came through \<open>setToken\<close>, which keeps at most 8 bytes and no empty buffer.
\<close>

definition finalizeBlock2Response ::
  "(64 word \<Rightarrow> real) \<Rightarrow> exchange \<Rightarrow> exchange \<times> effect list" where
  "finalizeBlock2Response undbl ex =
     (let blocks = (case blocks2 ex of None \<Rightarrow> [] | Some bs \<Rightarrow> bs);
          fullPayload = concat (map getPayload blocks);
          lastBlock = last blocks;
          response = setPayload fullPayload
                       (Message_new\<lparr> msgType := msgType lastBlock, code := code lastBlock,
                                     msgId := msgId lastBlock,
                                     token := (if getTokenLength lastBlock = 0 then None
                                               else token lastBlock),
                                     options := Options_sort (options lastBlock),
                                     remoteEndpoint := remoteEndpoint lastBlock \<rparr>)
      in setResponse undbl ex response)"

text \<open>
  \<open>ClientExchange.prototype.handleBlock2Response(blockResponse, block2, serverInitiative)\<close>;
  the third argument counts only when it is a boolean.  The event \<open>block received\<close> is
  emitted with \<open>this.request.emit.bind(this, ...)\<close>: the function is the request's
  \<open>emit\<close>, the object it is invoked on is the exchange.
\<close>

definition handleBlock2Response ::
  "(64 word \<Rightarrow> real) \<Rightarrow> exchange \<Rightarrow> message \<Rightarrow> BlockOption \<Rightarrow> bool option
     \<Rightarrow> exchange \<times> effect list" where
  "handleBlock2Response undbl ex blockResponse block2 serverInitiative' =
     (let ex1 = (case serverInitiative' of None \<Rightarrow> ex | Some b \<Rightarrow> ex\<lparr> serverInitiative := b \<rparr>);
          (ex2, block2') = setCurrentBlock2 ex1 block2;
          ex3 = ex2\<lparr> blocks2 := (case blocks2 ex2 of
                                     None \<Rightarrow> Some [blockResponse]
                                   | Some bs \<Rightarrow> Some (bs @ [blockResponse])) \<rparr>;
          received = [Emit ExchangeObject ''block received''
                        [MsgArg blockResponse, BlockArg block2']]
      in if bm block2' then (ex3\<lparr> lastMaxAge := - 1 \<rparr>, received)
         else (case finalizeBlock2Response undbl ex3 of
                 (ex4, effs) \<Rightarrow> (ex4, received @ effs)))"

definition scheduleTimeout :: "exchange \<Rightarrow> effect list" where
  "scheduleTimeout ex =
     [ScheduleTimeout (if lastMaxAge ex = - 1 then exchangeTimeoutOption ex
                       else lastMaxAge ex * 1000)]"

section \<open>Client: replies and the handling of Block2 responses\<close>

definition sendRstReply :: "message \<Rightarrow> effect list" where
  "sendRstReply msg =
     (let rstReply = createReply msg RST EMPTY
      in [CacheReply (getTransactionKey msg) rstReply, SendMessage rstReply])"

definition sendAckReply :: "message \<Rightarrow> effect list" where
  "sendAckReply msg =
     (let ackReply = createReply msg ACK EMPTY
      in [CacheReply (getTransactionKey msg) ackReply, SendMessage ackReply])"

text \<open>
  \<open>Client.requestNextBlock(exchange)\<close> sends a request for the block after the current
  one, with its own message ID and transaction.
\<close>

definition requestNextBlock :: "exchange \<Rightarrow> effect list" where
  "requestNextBlock ex =
     (case currentBlock2 ex of
        None \<Rightarrow> []
      | Some cur \<Rightarrow> [RequestNextBlock (bnum cur + 1) (bszx cur)])"

text \<open>
  The handlers return the exchange after the call, or \<open>None\<close> when the client has
  finished (deleted and destroyed) it, and what was done, in order.
\<close>

definition handleInvalidBlock2Response ::
  "exchange \<Rightarrow> message \<Rightarrow> BlockOption \<Rightarrow> real \<Rightarrow> exchange option \<times> effect list" where
  "handleInvalidBlock2Response ex response block2 observe =
     (Some ex,
      if isConfirmable response
      then (if observe = - 1 then sendRstReply response else sendAckReply response)
      else [])"

definition handleNewValidBlock2Response ::
  "(64 word \<Rightarrow> real) \<Rightarrow> exchange \<Rightarrow> message \<Rightarrow> BlockOption \<Rightarrow> bool option
     \<Rightarrow> exchange option \<times> effect list" where
  "handleNewValidBlock2Response undbl ex response block2 serverInitiative' =
     (let ack = (if isConfirmable response then sendAckReply response else []);
          (ex1, effs) = handleBlock2Response undbl ex response block2 serverInitiative'
      in if serverInitiative ex1 then (Some ex1, ack @ effs @ scheduleTimeout ex1)
         else if bm block2 then (Some ex1, ack @ effs @ requestNextBlock ex1)
         else (None, ack @ effs @ finishExchange ex1))"

definition handleNewBlock2Response ::
  "(64 word \<Rightarrow> real) \<Rightarrow> exchange \<Rightarrow> message \<Rightarrow> BlockOption \<Rightarrow> bool option
     \<Rightarrow> exchange option \<times> effect list" where
  "handleNewBlock2Response undbl ex response block2 serverInitiative' =
     (if isValidBlock2 undbl ex block2 None
      then handleNewValidBlock2Response undbl ex response block2 serverInitiative'
      else handleInvalidBlock2Response ex response block2 (getObserve undbl response))"

text \<open>
  \<open>handleExistingBlock2Response\<close> passes \<open>observe\<close>, a number, as the third argument
  of the exchange's \<open>handleBlock2Response\<close>, where only a boolean counts.
\<close>

definition handleExistingBlock2Response ::
  "(64 word \<Rightarrow> real) \<Rightarrow> exchange \<Rightarrow> message \<Rightarrow> BlockOption
     \<Rightarrow> exchange option \<times> effect list" where
  "handleExistingBlock2Response undbl ex response block2 =
     (let observe = getObserve undbl response
      in if \<not> isValidBlock2 undbl ex block2 (Some observe)
         then handleInvalidBlock2Response ex response block2 observe
         else
           (let ack = (if isConfirmable response then sendAckReply response else []);
                (ex1, effs) = handleBlock2Response undbl ex response block2 None
            in if bm block2
               then (if serverInitiative ex1 then (Some ex1, ack @ effs @ scheduleTimeout ex1)
                     else (Some ex1, ack @ effs @ requestNextBlock ex1))
               else (if isSubscribed ex1 then (Some ex1, ack @ effs @ scheduleTimeout ex1)
                     else (None, ack @ effs @ finishExchange ex1))))"

definition Client_handleBlock2Response ::
  "(64 word \<Rightarrow> real) \<Rightarrow> exchange \<Rightarrow> message \<Rightarrow> BlockOption \<Rightarrow> bool option
     \<Rightarrow> exchange option \<times> effect list" where
  "Client_handleBlock2Response undbl ex response block2 serverInitiative' =
     (if bnum block2 > 0 \<and> isBlockwiseResponse ex
      then handleExistingBlock2Response undbl ex response block2
      else handleNewBlock2Response undbl ex response block2 serverInitiative')"

section \<open>ClientTransaction and the first steps of the handling of a response\<close>





section \<open>Retransmission\<close>









section \<open>Numeric option values\<close>




























section \<open>Exchange keys\<close>

text \<open>
  C3.  The exchange key is the endpoint string, \<open>'|'\<close>, and the token in hexadecimal.
  \<open>convertToHexString\<close> pads a byte with \<open>'0'\<close> only when it is below 10, so the
  bytes 10 to 15 are written with one digit, and the one-byte token \<open>aa\<close> and the
  two-byte token \<open>0a 0a\<close> both give \<open>"aa"\<close>: for every endpoint, two different
  tokens have the same exchange key.
\<close>

theorem getExchangeKey_collision:
  "token (m\<lparr>token := Some [0xAA]\<rparr>) \<noteq> token (m\<lparr>token := Some [0x0A, 0x0A]\<rparr>) \<and>
   remoteEndpoint (m\<lparr>token := Some [0xAA]\<rparr>) = remoteEndpoint (m\<lparr>token := Some [0x0A, 0x0A]\<rparr>) \<and>
   getExchangeKey (m\<lparr>token := Some [0xAA]\<rparr>) = getExchangeKey (m\<lparr>token := Some [0x0A, 0x0A]\<rparr>)"
  by (simp add: getExchangeKey_def getTokenString_def convertToHexString_def toString16.simps
      hexDigit_def)

section \<open>Canonical IPv6 addresses\<close>

text \<open>
  C9.  \<open>expandIpv6\<close> returns an address of 39 characters as it is, before the
  lower-casing at the end of the function: the full form written in upper case stays in
  upper case, while the compressed forms of the same address are expanded and
  lower-cased.  Two spellings of one address give different canonical strings.
\<close>

theorem expandIpv6_keeps_upper_case:
  "address (EndpointAddress ''ABCD:0000:0000:0000:0000:0000:0000:0001'' None)
     = ''ABCD:0000:0000:0000:0000:0000:0000:0001'' \<and>
   address (EndpointAddress ''abcd::1'' None) = ''abcd:0000:0000:0000:0000:0000:0000:0001'' \<and>
   address (EndpointAddress ''ABCD::1'' None) = ''abcd:0000:0000:0000:0000:0000:0000:0001'' \<and>
   EndpointAddress_toString (EndpointAddress ''ABCD:0000:0000:0000:0000:0000:0000:0001'' None)
     \<noteq> EndpointAddress_toString (EndpointAddress ''abcd::1'' None)"
  by code_simp

section \<open>Options with an unregistered number\<close>

text \<open>
  C2, as stated, fails: the datagram below (a confirmable GET, message ID 1, one empty
  option with delta 13, hence number 13) is not decoded; \<open>new Option(13, null)\<close>
  raises \<open>Unknown message option\<close>.
\<close>

theorem fromBuffer_unknown_option_counterexample:
  "fromBuffer optionNumberRegistry 0 [0x40, 0x01, 0x00, 0x01, 0xD0, 0x00] = Inl (UnknownOption 13)"
  by code_simp

text \<open>
  With every number accepted (the registry \<open>UNIV\<close>) the decoder shows what is on the
  wire.  Against a registry, a round of the loop gives the same option when its number is
  registered and raises otherwise.
\<close>

lemma unserializeOption_registry:
  assumes "unserializeOption UNIV lastNo h buf = Inr (opt, r)"
  shows "unserializeOption registry lastNo h buf =
           (if number opt \<in> registry then Inr (opt, r) else Inl (UnknownOption (number opt)))"
  using assms
  by (auto simp: unserializeOption_def Option_new_def Let_def
      split: if_splits sum.splits prod.splits)

lemma unserialize_registry:
  assumes "unserialize UNIV lastNo buf acc = Inr (opts, r)"
    and "\<exists>opt \<in> set opts. number opt \<notin> registry"
    and "\<forall>opt \<in> set acc. number opt \<in> registry"
  shows "\<exists>n. n \<notin> registry \<and> unserialize registry lastNo buf acc' = Inl (UnknownOption n)"
  using assms
proof (induction "UNIV :: nat set" lastNo buf acc arbitrary: acc' rule: unserialize.induct)
  case (1 lastOptionNumber acc)
  then show ?case by auto
next
  case (2 lastOptionNumber h buf acc)
  show ?case
  proof (cases "h = 0xFF")
    case True
    then show ?thesis using "2.prems" by auto
  next
    case False
    then obtain opt r' where u: "unserializeOption UNIV lastOptionNumber h buf = Inr (opt, r')"
      using "2.prems"(1) by (auto split: sum.splits)
    show ?thesis
    proof (cases "number opt \<in> registry")
      case True
      have "\<exists>n. n \<notin> registry \<and>
          unserialize registry (number opt) r' (acc' @ [opt]) = Inl (UnknownOption n)"
        using "2.hyps" [OF False u refl] "2.prems" u False True 
        by auto
      then show ?thesis using False u True by (simp add: unserializeOption_registry [OF u])
    next
      case False': False
      then show ?thesis using False u by (auto simp: unserializeOption_registry [OF u])
    qed
  qed
qed

lemma setPayload_options: "options (setPayload p m) = options m"
  by (simp add: setPayload_def)

text \<open>
  C2, amended.  For every datagram that is wire-legal (it decodes when every option
  number is accepted) and whose option list contains a number that is not registered,
  \<open>Message.fromBuffer\<close> does not return a message: it raises
  \<open>Unknown message option\<close> for an unregistered number.
\<close>

theorem fromBuffer_unknown_option_fails:
  assumes "fromBuffer UNIV now buffer = Inr m"
    and "\<exists>opt \<in> set (options m). number opt \<notin> registry"
  shows "\<exists>n. n \<notin> registry \<and> fromBuffer registry now buffer = Inl (UnknownOption n)"
proof -
  obtain firstByte r1 where s1: "shiftByte buffer = Inr (firstByte, r1)"
    using assms(1) by (auto simp: fromBuffer_def Let_def split: if_splits sum.splits)
  obtain c r2 where s2: "shiftByte r1 = Inr (c, r2)"
    using assms(1) s1 by (auto simp: fromBuffer_def Let_def split: if_splits sum.splits)
  obtain i r3 where s3: "shiftUInt16 r2 = Inr (i, r3)"
    using assms(1) s1 s2 by (auto simp: fromBuffer_def Let_def split: if_splits sum.splits)
  define m0 where "m0 = Message_new\<lparr>timestamp := now,
      msgType := typeOfNumber (unat (drop_bit 4 (firstByte AND 48))), code := unat c, msgId := i\<rparr>"
  define tok where "tok = (if unat (firstByte AND 15) > 0
       then (case shiftBuffer (unat (firstByte AND 15)) r3 of
               Inl e \<Rightarrow> Inl e
             | Inr (t, r4) \<Rightarrow> (case setToken t m0 of Inl e \<Rightarrow> Inl e | Inr m1 \<Rightarrow> Inr (m1, r4)))
       else Inr (m0, r3))"
  have ok: "(case buffer of [] \<Rightarrow> 0 | b # _ \<Rightarrow> unat (drop_bit 6 b)) = 1" "unat c \<in> codeRegistry"
    using assms(1) s1 s2 by (auto simp: fromBuffer_def Let_def split: if_splits sum.splits)
  have fb: "fromBuffer reg now buffer =
      (case tok of
         Inl e \<Rightarrow> Inl e
       | Inr (m1, r4) \<Rightarrow>
           if length r4 = 0 then Inr m1
           else (case unserialize reg 0 r4 [] of
                   Inl e \<Rightarrow> Inl e
                 | Inr (opts, r5) \<Rightarrow>
                     (let m2 = m1\<lparr>options := opts\<rparr>
                      in if length r5 > 0 then Inr (setPayload r5 m2) else Inr m2)))" for reg
    unfolding fromBuffer_def tok_def m0_def
    by (simp only: ok s1 s2 s3 Let_def sum.case prod.case simp_thms if_False if_True)
  obtain m1 r4 where t: "tok = Inr (m1, r4)"
    using assms(1) unfolding fb by (auto split: sum.splits)
  have m1: "options m1 = []"
    using t by (auto simp: tok_def m0_def Message_new_def setToken_def 
        split: if_splits sum.splits prod.splits)
  have ne: "length r4 \<noteq> 0"
    using assms t m1 unfolding fb by (auto split: if_splits)
  obtain opts r5 where u: "unserialize UNIV 0 r4 [] = Inr (opts, r5)"
    using assms(1) t ne unfolding fb by (auto split: sum.splits)
  have "options m = opts"
    using assms(1) t ne u unfolding fb by (auto simp: Let_def setPayload_options split: if_splits)
  then have "\<exists>n. n \<notin> registry \<and> unserialize registry 0 r4 [] = Inl (UnknownOption n)"
    using unserialize_registry [OF u, of registry "[]"] assms(2) by simp
  then show ?thesis unfolding fb using t ne by auto
qed

theorem fromBuffer_unknown_option_fails_witness:
  "fromBuffer UNIV 0 [0x40, 0x01, 0x00, 0x01, 0xD0, 0x00]
     = Inr (Message_new\<lparr>timestamp := 0, code := 1, msgId := 1,
                        options := [\<lparr>number = 13, data = None\<rparr>]\<rparr>) \<and>
   13 \<notin> optionNumberRegistry \<and>
   (\<exists>n. n \<notin> optionNumberRegistry \<and>
        fromBuffer optionNumberRegistry 0 [0x40, 0x01, 0x00, 0x01, 0xD0, 0x00]
          = Inl (UnknownOption n))"
proof -
  have a: "fromBuffer UNIV 0 [0x40, 0x01, 0x00, 0x01, 0xD0, 0x00]
     = Inr (Message_new\<lparr>timestamp := 0, code := 1, msgId := 1,
                        options := [\<lparr>number = 13, data = None\<rparr>]\<rparr>)"
    by code_simp
  have b: "13 \<notin> optionNumberRegistry" by (simp add: optionNumberRegistry_def)
  show ?thesis
    using fromBuffer_unknown_option_fails [OF a, of optionNumberRegistry] a b by simp
qed


section \<open>Tokens after the counter has wrapped\<close>

text \<open>
  While \<open>maxReached\<close> is \<open>false\<close>, an acquisition after the empty token has been
  taken moves the counter one step and returns it, whatever the acquired set holds.
\<close>

lemma acquireMany_add:
  "acquireMany (m + n) tm now =
     (case acquireMany m tm now of
        None \<Rightarrow> None
      | Some (tm', ts) \<Rightarrow>
          (case acquireMany n tm' now of
             None \<Rightarrow> None
           | Some (tm'', ts') \<Rightarrow> Some (tm'', ts @ ts')))"
  by (induction m arbitrary: tm) (auto split: option.splits)

lemma acquire_increment:
  assumes "\<not> maxReached tm" "[] \<in> acquiredTokens tm" "currentValue tm = [k]" "k < 255"
    "currentIndex tm = 0"
  shows "acquire tm now =
     Some (tm\<lparr> currentValue := [Suc k],
               acquiredTokens := insert (valueString [Suc k]) (acquiredTokens tm) \<rparr>,
           [of_nat (Suc k)])"
  using assms
  by (simp add: acquire_def isAcquired_def nextValue_def isValueMaxed_def incrementValue_def)

lemma acquire_wrap:
  assumes "\<not> maxReached tm" "[] \<in> acquiredTokens tm" "currentValue tm = [255]"
    "maxSize tm = 1"
  shows "acquire tm now =
     Some (tm\<lparr> currentValue := [0], currentIndex := 0,
               acquiredTokens := insert (valueString [0]) (acquiredTokens tm) \<rparr>,
           [0])"
  using assms
  by (simp add: acquire_def isAcquired_def nextValue_def isValueMaxed_def resizeValue_def)

lemma acquireMany_count:
  assumes "\<not> maxReached tm" "[] \<in> acquiredTokens tm" "currentValue tm = [k]"
    "currentIndex tm = 0" "k + n \<le> 255"
  shows "\<exists>tm'. acquireMany n tm now = Some (tm', map (\<lambda>j. [of_nat j]) [Suc k ..< Suc (k + n)])
           \<and> \<not> maxReached tm' \<and> currentValue tm' = [k + n]
           \<and> currentIndex tm' = 0 \<and> maxSize tm' = maxSize tm
           \<and> acquiredTokens tm \<subseteq> acquiredTokens tm'
           \<and> (\<forall>j. k < j \<and> j \<le> k + n \<longrightarrow> valueString [j] \<in> acquiredTokens tm')"
  using assms
proof (induction n arbitrary: tm k)
  case 0
  then show ?case by auto
next
  case (Suc n)
  let ?tm1 = "tm\<lparr> currentValue := [Suc k],
      acquiredTokens := insert (valueString [Suc k]) (acquiredTokens tm) \<rparr>"
  have a: "acquire tm now = Some (?tm1, [of_nat (Suc k)])"
    using Suc.prems by (intro acquire_increment) auto
  obtain tm' where t: "acquireMany n ?tm1 now
         = Some (tm', map (\<lambda>j. [of_nat j]) [Suc (Suc k) ..< Suc (Suc k + n)])"
      "\<not> maxReached tm'" "currentValue tm' = [Suc k + n]"
      "currentIndex tm' = 0" "maxSize tm' = maxSize ?tm1"
      "acquiredTokens ?tm1 \<subseteq> acquiredTokens tm'"
      "\<forall>j. Suc k < j \<and> j \<le> Suc k + n \<longrightarrow> valueString [j] \<in> acquiredTokens tm'"
    using Suc.IH [of ?tm1 "Suc k"] Suc.prems by auto
  have run: "acquireMany (Suc n) tm now
      = Some (tm', map (\<lambda>j. [of_nat j]) [Suc k ..< Suc (k + Suc n)])"
  proof -
    have u: "[Suc k ..< Suc (k + Suc n)] = Suc k # [Suc (Suc k) ..< Suc (Suc k + n)]"
      by (simp add: upt_conv_Cons del: upt_Suc)
    show ?thesis unfolding u using a t(1) by (simp del: upt_Suc)
  qed
  have held: "valueString [j] \<in> acquiredTokens tm'" if "k < j" "j \<le> k + Suc n" for j
  proof (cases "j = Suc k")
    case True
    then show ?thesis using t(6) by auto
  next
    case False
    then show ?thesis using that t(7) by auto
  qed
  show ?case
    using run t(2-6) held by (intro exI [of _ tm']) auto
qed

text \<open>
  C8.  A token manager with \<open>maxSize = 1\<close> and 257 calls of \<open>acquire\<close> with no
  \<open>release\<close>: the second call returned the token \<open>01\<close>, which is still in the
  acquired set, and the next call returns \<open>01\<close> again.  The counter has wrapped from
  \<open>ff\<close> to \<open>00\<close>, \<open>maxReached\<close> is still \<open>false\<close> (nothing ever sets it), and
  the loop that skips acquired values is not entered.
\<close>

theorem acquire_returns_held_token_after_wrap:
  "(case acquireMany 257 (TokenManager (Some 1) None) 100000 of
      None \<Rightarrow> False
    | Some (tm, ts) \<Rightarrow>
        ts ! 1 = [1] \<and> \<not> maxReached tm \<and> isAcquired tm (valueString [1]) \<and>
        map_option snd (acquire tm 100000) = Some [1])"
proof -
  let ?tm0 = "TokenManager (Some 1) None"
  let ?tm1 = "?tm0\<lparr> acquiredTokens := insert [] (acquiredTokens ?tm0) \<rparr>"
  have first: "acquire ?tm0 100000 = Some (?tm1, [])"
    by (simp add: acquire_def TokenManager_def isAcquired_def MAX_TOKEN_SIZE_def)
  obtain tm2 where count: "acquireMany 255 ?tm1 100000
        = Some (tm2, map (\<lambda>j. [of_nat j]) [Suc 0 ..< Suc (0 + 255)])"
      "\<not> maxReached tm2" "currentValue tm2 = [0 + 255]" "currentIndex tm2 = 0"
      "maxSize tm2 = maxSize ?tm1" "acquiredTokens ?tm1 \<subseteq> acquiredTokens tm2"
      "\<forall>j. 0 < j \<and> j \<le> 0 + 255 \<longrightarrow> valueString [j] \<in> acquiredTokens tm2"
    using acquireMany_count [of ?tm1 0 255 100000]
    by (auto simp: TokenManager_def)
  let ?tm3 = "tm2\<lparr> currentValue := [0], currentIndex := 0,
      acquiredTokens := insert (valueString [0]) (acquiredTokens tm2) \<rparr>"
  have wrap: "acquire tm2 100000 = Some (?tm3, [0])"
    using count by (intro acquire_wrap) (auto simp: TokenManager_def MAX_TOKEN_SIZE_def)
  have many: "acquireMany 257 ?tm0 100000
      = Some (?tm3, [] # map (\<lambda>j. [of_nat j]) [Suc 0 ..< Suc (0 + 255)] @ [[0]])"
    using first count(1) wrap acquireMany_add [of 1 256 ?tm0 100000]
      acquireMany_add [of 255 1 ?tm1 100000]
    by (simp add: numeral_eq_Suc del: upt_Suc)
  have again: "acquire ?tm3 100000
      = Some (?tm3\<lparr> currentValue := [Suc 0],
                    acquiredTokens := insert (valueString [Suc 0]) (acquiredTokens ?tm3) \<rparr>,
              [of_nat (Suc 0)])"
    using count by (intro acquire_increment) auto
  have held: "valueString [1] \<in> acquiredTokens ?tm3" using count(7) by simp
  have second: "([] # map (\<lambda>j. [of_nat j :: byte]) [Suc 0 ..< Suc (0 + 255)] @ [[0]]) ! 1 = [1]"
    by (simp add: nth_append del: upt_Suc)
  show ?thesis
    unfolding many using again held second count(2) by (simp add: isAcquired_def del: upt_Suc)
qed


section \<open>Late Observe responses\<close>

definition isResponseEvent :: "effect \<Rightarrow> bool" where
  "isResponseEvent e = (case e of Emit _ name _ \<Rightarrow> name = ''response'' | _ \<Rightarrow> False)"


lemma sendAckReply_no_response: "\<forall>e \<in> set (sendAckReply response). \<not> isResponseEvent e"
  by (simp add: sendAckReply_def isResponseEvent_def Let_def)




section \<open>Block-wise downloads\<close>

text \<open>
  An exchange for a confirmable GET of \<open>/blocks\<close> with a given block size, and a
  response that carries one Block2 option (given as its single byte) and a payload.
\<close>

definition exampleExchange :: "int \<Rightarrow> exchange" where
  "exampleExchange blockSize' =
     \<lparr> request = Message_new\<lparr> code := GET, msgId := 1,
                    options := [\<lparr> number = 11, data = Some [98, 108, 111, 99, 107, 115] \<rparr>] \<rparr>,
       blockSizeOption = blockSize', exchangeTimeoutOption = 96000,
       exchangeKey = ''127.0.0.1|'', transactionKey = None, currentBlock1 = None,
       blockwiseResponsePossible = True, currentBlock2 = None, blocks2 = None,
       observer = False, lastObserveValue = - 1, lastResponseTime = 0, lastMaxAge = - 1,
       serverInitiative = False \<rparr>"

definition exampleBlock :: "msg_type \<Rightarrow> nat \<Rightarrow> byte \<Rightarrow> buffer \<Rightarrow> message" where
  "exampleBlock ty i blockByte p =
     Message_new\<lparr> msgType := ty, code := 69, msgId := i, timestamp := 1000,
                  options := [\<lparr> number = 23, data = Some [blockByte] \<rparr>],
                  payload := Some p \<rparr>"


text \<open>
  The events that reach the listeners of the request: those emitted on the request of
  the exchange.
\<close>

definition requestEvents :: "effect list \<Rightarrow> (string \<times> event_arg list) list" where
  "requestEvents effs =
     concat (map (\<lambda>e. case e of Emit ExchangeRequest name args \<Rightarrow> [(name, args)] | _ \<Rightarrow> []) effs)"

lemma handleBlock2Response_request_events:
  "map fst (requestEvents (snd (handleBlock2Response undbl ex blockResponse block2 si)))
     = (if bm block2 then [] else [''response''])"
  by (auto simp: handleBlock2Response_def requestEvents_def setCurrentBlock2_def Let_def
      finalizeBlock2Response_def setResponse_def adjustBlockToSize_def
      split: prod.splits option.splits)

text \<open>
  C4.  A download of two blocks for a GET request: block 0 with \<open>M = true\<close>, then
  block 1 with \<open>M = false\<close>, both in size 64 and both valid.  Both blocks are accepted
  and the response with the concatenated payload is emitted on the request.  The two
  \<open>block received\<close> events are emitted on the exchange object, which has no listeners:
  the only event that reaches the request is \<open>response\<close>.
\<close>

theorem block_received_not_emitted_on_request:
  "(let b0 = exampleBlock ACK 1 0x0A [1, 2, 3];
        b1 = exampleBlock ACK 2 0x12 [4, 5];
        bo0 = BlockOption_new 23 0 True 2;
        bo1 = BlockOption_new 23 1 False 2;
        ex1 = (exampleExchange 512)\<lparr> currentBlock2 := Some bo0, blocks2 := Some [b0] \<rparr>;
        response = b1\<lparr> payload := Some [1, 2, 3, 4, 5], timestamp := - 1 \<rparr>
    in getBlock2 b0 = Some bo0 \<and> getBlock2 b1 = Some bo1
       \<and> Client_handleBlock2Response (\<lambda>_. 0) (exampleExchange 512) b0 bo0 (Some False)
           = (Some ex1, [Emit ExchangeObject ''block received'' [MsgArg b0, BlockArg bo0],
                         RequestNextBlock 1 2])
       \<and> Client_handleBlock2Response (\<lambda>_. 0) ex1 b1 bo1 (Some False)
           = (None, [Emit ExchangeObject ''block received'' [MsgArg b1, BlockArg bo1],
                     Emit ExchangeRequest ''response'' [MsgArg response],
                     FinishExchange])
       \<and> map fst (requestEvents
             (snd (Client_handleBlock2Response (\<lambda>_. 0) (exampleExchange 512) b0 bo0 (Some False))
              @ snd (Client_handleBlock2Response (\<lambda>_. 0) ex1 b1 bo1 (Some False))))
           = [''response''])"
  by code_simp





section \<open>The retransmission schedule\<close>













section \<open>Encoding and decoding a message\<close>

text \<open>
  \<open>Message.fromBuffer\<close> applied to what \<open>toBuffer\<close> wrote.  The decoder builds every
  option anew, with \<open>null\<close> for an empty value where the encoded option may have held an
  empty buffer, so options are compared by what their getters \<open>getNumber\<close> and
  \<open>getData\<close> answer.
\<close>

text \<open>
  An option as it comes back from the wire: the same number and value, with \<open>null\<close>
  for an empty value.
\<close>

definition received :: "coap_option \<Rightarrow> coap_option" where
  "received opt =
     \<lparr> number = number opt, data = (if getData opt = [] then None else Some (getData opt)) \<rparr>"

text \<open>What is compared of an option: its number and its value.\<close>

definition optionView :: "coap_option \<Rightarrow> nat \<times> buffer" where
  "optionView opt = (number opt, getData opt)"

text \<open>
  A valid message: a registered code, a message ID of 16 bits, a token of at most 8
  bytes, options with registered numbers whose values fit the length field of the wire
  format (at most \<open>65535 + 269\<close> bytes), and a payload that is absent or not empty.
\<close>

definition validMessage :: "message \<Rightarrow> bool" where
  "validMessage m \<longleftrightarrow>
     code m \<in> codeRegistry \<and> msgId m \<le> 0xFFFF \<and> length (getToken m) \<le> 8
     \<and> (\<forall>opt \<in> set (options m).
           number opt \<in> optionNumberRegistry \<and> length (getData opt) \<le> 65804)
     \<and> payload m \<noteq> Some []"

definition exampleMessage :: message where
  "exampleMessage = Message_new\<lparr> msgType := ACK, code := 69, msgId := 513,
     token := Some [1, 2],
     options := [\<lparr>number = 11, data = Some [65]\<rparr>, \<lparr>number = 3, data = Some [66]\<rparr>,
                 \<lparr>number = 11, data = Some [67]\<rparr>],
     payload := Some [7, 7] \<rparr>"

subsection \<open>One option\<close>

lemma getOptionNibble_le: "getOptionNibble v \<le> 14"
  by (simp add: getOptionNibble_def)

lemma header_byte_value:
  assumes "dnib \<le> 14" "lnib \<le> 14"
  shows "push_bit 4 dnib OR lnib = 16 * dnib + (lnib::nat)"
proof -
  have lnib: "take_bit 4 lnib = lnib" using assms by (simp add: take_bit_nat_eq_self)
  have "push_bit 4 dnib + lnib = push_bit 4 dnib OR lnib"
    apply (rule disjunctive_add_eq_or)
    apply (subst lnib [symmetric])
    apply (auto simp add: bit_eq_iff bit_simps)
    done
  then show ?thesis by (simp add: push_bit_eq_mult)
qed

lemma byte_and_15: "unat ((x :: byte) AND 15) = unat x mod 16"
proof -
  have "(15 :: byte) = mask 4" by (simp add: mask_eq_exp_minus_1)
  then have "x AND 15 = take_bit 4 x" by (simp only: take_bit_eq_mask)
  then have "unat (x AND 15) = take_bit 4 (unat x)" by (simp only: unsigned_take_bit_eq)
  then show ?thesis by (simp add: take_bit_eq_mod)
qed

lemma byte_and_240: "unat (drop_bit 4 ((x :: byte) AND 240)) = unat x div 16"
proof -
  have "drop_bit 4 (240 :: byte) = mask 4" by (simp add: mask_eq_exp_minus_1 drop_bit_eq_div)
  then have "drop_bit 4 (x AND 240) = take_bit 4 (drop_bit 4 x)"
    by (simp only: drop_bit_and take_bit_eq_mask)
  then have "unat (drop_bit 4 (x AND 240)) = take_bit 4 (drop_bit 4 (unat x))"
    by (simp only: unsigned_take_bit_eq unat_drop_bit_eq)
  then have "unat (drop_bit 4 (x AND 240)) = (unat x div 16) mod 16"
    by (simp add: take_bit_eq_mod drop_bit_eq_div)
  moreover have "unat x div 16 < 16"
    using unsigned_less [of x, where ?'a = nat] by simp
  ultimately show ?thesis by simp
qed

lemma header_nibbles:
  assumes "dnib \<le> 14" "lnib \<le> 14"
  shows "unat (drop_bit 4 ((of_nat (16 * dnib + lnib) :: byte) AND 240)) = dnib"
    and "unat ((of_nat (16 * dnib + lnib) :: byte) AND 15) = lnib"
    and "(of_nat (16 * dnib + lnib) :: byte) \<noteq> 0xFF"
proof -
  have u: "unat (of_nat (16 * dnib + lnib) :: byte) = 16 * dnib + lnib"
    by (rule of_nat_inverse [OF refl]) (use assms in simp)
  show "unat (drop_bit 4 ((of_nat (16 * dnib + lnib) :: byte) AND 240)) = dnib"
    unfolding byte_and_240 u using assms by simp
  show "unat ((of_nat (16 * dnib + lnib) :: byte) AND 15) = lnib"
    unfolding byte_and_15 u using assms by simp
  show "(of_nat (16 * dnib + lnib) :: byte) \<noteq> 0xFF"
  proof
    assume "(of_nat (16 * dnib + lnib) :: byte) = 0xFF"
    then have "unat (of_nat (16 * dnib + lnib) :: byte) = unat (0xFF :: byte)"
      by (rule arg_cong)
    then show False unfolding u using assms by simp
  qed
qed

text \<open>The bytes that follow the header for a delta or a length, and reading them back.\<close>

lemma extended_roundtrip:
  assumes "v \<le> 65804"
  shows "\<exists>ext. pushExtendedOptionValue (getOptionNibble v) v = Inr ext
           \<and> readExtended (getOptionNibble v) (ext @ rest) = Inr (v, rest)"
proof -
  consider "v \<le> 12" | "12 < v" "v \<le> 268" | "268 < v" by linarith
  then show ?thesis
  proof cases
    case 1
    then show ?thesis
      by (simp add: getOptionNibble_def pushExtendedOptionValue_def readExtended_def)
  next
    case 2
    have "unat (of_nat (v - 13) :: byte) = v - 13"
      by (rule of_nat_inverse [OF refl]) (use 2 in simp)
    then show ?thesis using 2
      by (simp add: getOptionNibble_def pushExtendedOptionValue_def readExtended_def
          pushUInt8_def shiftByte_def)
  next
    case 3
    define w where "w = v - 269"
    have w: "w \<le> 65535" "v = w + 269" using 3 assms by (simp_all add: w_def)
    have hi: "unat (of_nat (w div 256) :: byte) = w div 256"
      by (rule of_nat_inverse [OF refl]) (use w in simp)
    have lo: "unat (of_nat w :: byte) = w mod 256"
      by (simp add: unat_of_nat)
    show ?thesis using 3 w hi lo
      by (simp add: getOptionNibble_def pushExtendedOptionValue_def readExtended_def
          pushUInt16_def shiftUInt16_def)
  qed
qed

lemma option_roundtrip:
  assumes "lastNo \<le> number opt" "number opt \<le> 65804" "length (getData opt) \<le> 65804"
    "number opt \<in> registry"
  shows "\<exists>h ext. Option_serialize opt (number opt - lastNo) = Inr (h # ext) \<and> h \<noteq> 0xFF
           \<and> unserializeOption registry lastNo h (ext @ rest) = Inr (received opt, rest)"
proof -
  define delta where "delta = number opt - lastNo"
  define len where "len = length (getData opt)"
  define body where "body = (if len > 0 then getData opt else [])"
  have len_data: "(case data opt of None \<Rightarrow> 0 | Some d \<Rightarrow> length d) = len"
    by (simp add: len_def getData_def split: option.splits)
  have bounds: "delta \<le> 65804" "len \<le> 65804"
    using assms by (simp_all add: delta_def len_def)
  obtain extL where extL: "pushExtendedOptionValue (getOptionNibble len) len = Inr extL"
      "readExtended (getOptionNibble len) (extL @ body @ rest) = Inr (len, body @ rest)"
    using extended_roundtrip [OF bounds(2), of "body @ rest"] by auto
  obtain extD where extD: "pushExtendedOptionValue (getOptionNibble delta) delta = Inr extD"
      "readExtended (getOptionNibble delta) (extD @ extL @ body @ rest)
         = Inr (delta, extL @ body @ rest)"
    using extended_roundtrip [OF bounds(1), of "extL @ body @ rest"] by auto
  define h :: byte where
    "h = of_nat (16 * getOptionNibble delta + getOptionNibble len)"
  have hv: "(of_nat (push_bit 4 (getOptionNibble delta) OR getOptionNibble len) :: byte) = h"
    unfolding h_def
    by (simp only: header_byte_value [OF getOptionNibble_le getOptionNibble_le])
  have ser: "Option_serialize opt delta = Inr (h # extD @ extL @ body)"
    by (simp add: Option_serialize_def Let_def len_data hv extD(1) extL(1) body_def)
  have nib: "unat (drop_bit 4 (h AND 240)) = getOptionNibble delta"
      "unat (h AND 15) = getOptionNibble len" "h \<noteq> 0xFF"
    unfolding h_def
    using header_nibbles [OF getOptionNibble_le getOptionNibble_le, of delta len] by blast+
  have no15: "getOptionNibble delta \<noteq> 15" "getOptionNibble len \<noteq> 15"
    using getOptionNibble_le [of delta] getOptionNibble_le [of len] by simp_all
  have shift: "(if len > 0
        then (case shiftBuffer len (body @ rest) of
                Inl e \<Rightarrow> Inl e
              | Inr (d, r3) \<Rightarrow> Inr (Some d, r3))
        else Inr (None, body @ rest)) = Inr (data (received opt), rest)"
    by (auto simp: shiftBuffer_def body_def len_def received_def)
  have num: "lastNo + delta = number opt" using assms(1) by (simp add: delta_def)
  have new: "Option_new registry (number opt) (data (received opt)) = Inr (received opt)"
    using assms(4) by (simp add: Option_new_def received_def)
  have "unserializeOption registry lastNo h ((extD @ extL @ body) @ rest)
      = Inr (received opt, rest)"
    unfolding unserializeOption_def Let_def nib append_assoc extD(2)
    using no15 by (simp add: extL(2) shift num new)
  then show ?thesis using ser nib(3) unfolding delta_def by auto
qed

lemma options_roundtrip:
  assumes "sorted (lastNo # map number opts)"
    and "\<forall>opt \<in> set opts. number opt \<in> registry \<and> number opt \<le> 65804
           \<and> length (getData opt) \<le> 65804"
    and "tail = [] \<or> hd tail = 0xFF"
  shows "\<exists>bs. serializeLoop lastNo opts = Inr bs
           \<and> unserialize registry lastNo (bs @ tail) acc = Inr (acc @ map received opts, drop 1 tail)"
  using assms
proof (induction opts arbitrary: lastNo acc)
  case Nil
  then show ?case by (cases tail) auto
next
  case (Cons opt opts)
  have le: "lastNo \<le> number opt" using Cons.prems(1) by simp
  have srt: "sorted (number opt # map number opts)" using Cons.prems(1) by simp
  obtain bs where bs: "serializeLoop (number opt) opts = Inr bs"
      "unserialize registry (number opt) (bs @ tail) (acc @ [received opt])
         = Inr ((acc @ [received opt]) @ map received opts, drop 1 tail)"
    using Cons.IH [OF srt, of "acc @ [received opt]"] Cons.prems(2,3) by auto
  obtain h ext where o: "Option_serialize opt (number opt - lastNo) = Inr (h # ext)"
      "h \<noteq> 0xFF"
      "unserializeOption registry lastNo h (ext @ (bs @ tail)) = Inr (received opt, bs @ tail)"
    using option_roundtrip [OF le, of registry "bs @ tail"] Cons.prems(2) by auto
  have num: "number (received opt) = number opt" by (simp add: received_def)
  have "serializeLoop lastNo (opt # opts) = Inr ((h # ext) @ bs)"
    using o(1) bs(1) by simp
  moreover have "unserialize registry lastNo (((h # ext) @ bs) @ tail) acc
      = Inr (acc @ map received (opt # opts), drop 1 tail)"
    using o(2,3) bs(2) num by simp
  ultimately show ?case by blast
qed

subsection \<open>The header\<close>

lemma or_plus_nat:
  assumes "a < 2 ^ n"
  shows "push_bit n b OR a = push_bit n b + (a::nat)"
proof -
  have a: "take_bit n a = a" using assms by (simp add: take_bit_nat_eq_self)
  have "push_bit n b + a = push_bit n b OR a"
    apply (rule disjunctive_add_eq_or)
    apply (subst a [symmetric])
    apply (auto simp add: bit_eq_iff bit_simps)
    done
  then show ?thesis by simp
qed

lemma typeNumber_less: "typeNumber t < 4"
  by (cases t) (simp_all add: typeNumber_def)

lemma typeOfNumber_typeNumber: "typeOfNumber (typeNumber t) = t"
  by (cases t) (simp_all add: typeNumber_def typeOfNumber_def)

lemma header_nat:
  assumes "t < 4" "tkl < 16" "c < 256" "i < 65536"
  shows "1073741824 OR push_bit 28 t OR push_bit 24 tkl OR push_bit 16 c OR i
           = 1073741824 + t * 268435456 + tkl * 16777216 + c * 65536 + (i::nat)"
proof -
  have 1: "push_bit 2 x OR t = push_bit 2 x + t" for x
    using assms by (intro or_plus_nat) simp
  have 2: "push_bit 4 x OR tkl = push_bit 4 x + tkl" for x
    using assms by (intro or_plus_nat) simp
  have 3: "push_bit 8 x OR c = push_bit 8 x + c" for x
    using assms by (intro or_plus_nat) simp
  have 4: "push_bit 16 x OR i = push_bit 16 x + i" for x
    using assms by (intro or_plus_nat) simp
  have "1073741824 OR push_bit 28 t OR push_bit 24 tkl OR push_bit 16 c OR i
      = push_bit 16 (push_bit 8 (push_bit 4 (push_bit 2 1 OR t) OR tkl) OR c) OR i"
    by (simp add: push_bit_or or.assoc)
  also have "\<dots> = push_bit 16 (push_bit 8 (push_bit 4 (push_bit 2 1 + t) + tkl) + c) + i"
    unfolding 1 2 3 4 ..
  also have "\<dots> = 1073741824 + t * 268435456 + tkl * 16777216 + c * 65536 + i"
    by (simp add: push_bit_eq_mult)
  finally show ?thesis .
qed

lemma headerWord_value:
  assumes "getTokenLength m < 16" "code m < 256" "msgId m < 65536"
  shows "unat (headerWord m)
           = 1073741824 + typeNumber (msgType m) * 268435456 + getTokenLength m * 16777216
             + code m * 65536 + msgId m"
proof -
  let ?S = "1073741824 + typeNumber (msgType m) * 268435456 + getTokenLength m * 16777216
             + code m * 65536 + msgId m"
  have "headerWord m
      = of_nat (1073741824 OR push_bit 28 (typeNumber (msgType m))
                OR push_bit 24 (getTokenLength m) OR push_bit 16 (code m) OR msgId m)"
    by (simp add: headerWord_def of_nat_or_eq push_bit_of_nat)
  then have w: "of_nat ?S = headerWord m"
    using header_nat [OF typeNumber_less assms] by simp
  have "?S < 2 ^ 32"
    using typeNumber_less [of "msgType m"] assms by simp
  then show ?thesis
    using of_nat_inverse [OF w] by simp
qed

lemma byte_of_word:
  "unat (ucast (drop_bit k (w :: 32 word)) :: byte) = (unat w div 2 ^ k) mod 256"
proof -
  have "unat (ucast (drop_bit k w) :: byte) = take_bit 8 (drop_bit k (unat w))"
    by (simp only: unsigned_ucast_eq unat_drop_bit_eq) simp
  then show ?thesis by (simp add: take_bit_eq_mod drop_bit_eq_div)
qed

lemma div_qr: "r < n \<Longrightarrow> (q * n + r) div n = (q::nat)"
  by simp

lemma mod_qr: "r < n \<Longrightarrow> (q * n + r) mod n = (r::nat)"
  by simp

lemma header_bytes:
  assumes "getTokenLength m \<le> 8" "code m < 256" "msgId m < 65536"
  shows "\<exists>b0 b1 b2 b3. pushUInt32 (headerWord m) = [b0, b1, b2, b3]
           \<and> unat b0 = 64 + typeNumber (msgType m) * 16 + getTokenLength m
           \<and> unat b1 = code m
           \<and> unat b2 * 256 + unat b3 = msgId m"
proof -
  define t where "t = typeNumber (msgType m)"
  define k where "k = getTokenLength m"
  define c where "c = code m"
  define i where "i = msgId m"
  define q where "q = 64 + t * 16 + k"
  have t: "t < 4" unfolding t_def by (rule typeNumber_less)
  have k: "k \<le> 8" and c: "c < 256" and i: "i < 65536"
    using assms by (simp_all add: k_def c_def i_def)
  have q: "q < 256" using t k by (simp add: q_def)
  have v: "unat (headerWord m) = 1073741824 + t * 268435456 + k * 16777216 + c * 65536 + i"
    using headerWord_value [of m] assms by (simp add: t_def k_def c_def i_def)
  have v24: "unat (headerWord m) = q * 16777216 + (c * 65536 + i)"
    unfolding v q_def by simp
  have v16: "unat (headerWord m) = (q * 256 + c) * 65536 + i"
    unfolding v q_def by simp
  have v8: "unat (headerWord m) = ((q * 256 + c) * 256 + i div 256) * 256 + i mod 256"
    unfolding v16 by simp
  have r24: "c * 65536 + i < 16777216" using c i by simp
  have b0: "(unat (headerWord m) div 2 ^ 24) mod 256 = q"
    using div_qr [OF r24, of q] q unfolding v24 by simp
  have b1: "(unat (headerWord m) div 2 ^ 16) mod 256 = c"
    using div_qr [OF i, of "q * 256 + c"] mod_qr [OF c, of q] unfolding v16 by simp
  have r8: "i div 256 < 256" using i by simp
  have lo: "i mod 256 < 256" by simp
  have b2: "(unat (headerWord m) div 2 ^ 8) mod 256 = i div 256"
    using div_qr [OF lo, of "(q * 256 + c) * 256 + i div 256"]
      mod_qr [OF r8, of "q * 256 + c"] unfolding v8 by simp
  have b3: "(unat (headerWord m) div 2 ^ 0) mod 256 = i mod 256"
    using mod_qr [OF lo, of "(q * 256 + c) * 256 + i div 256"] unfolding v8 by simp
  have u3: "unat (ucast (headerWord m) :: byte) = i mod 256"
    using byte_of_word [of 0 "headerWord m"] b3 by simp
  show ?thesis
    unfolding pushUInt32_def
    using b0 b1 b2 u3 byte_of_word [of 24 "headerWord m"] byte_of_word [of 16 "headerWord m"]
      byte_of_word [of 8 "headerWord m"]
    by (simp add: q_def t_def k_def c_def i_def)
qed

text \<open>What the decoder reads from the first byte.\<close>

lemma first_byte:
  assumes "unat (b :: byte) = 64 + t * 16 + k" "t < 4" "k \<le> 8"
  shows "unat (drop_bit 6 b) = 1"
    and "unat (drop_bit 4 (b AND 48)) = t"
    and "unat (b AND 15) = k"
proof -
  have "unat (drop_bit 6 b) = drop_bit 6 (unat b)" by (simp only: unat_drop_bit_eq)
  then show "unat (drop_bit 6 b) = 1"
    using assms by (simp add: drop_bit_eq_div)
  have "drop_bit 4 (48 :: byte) = mask 2" by (simp add: mask_eq_exp_minus_1 drop_bit_eq_div)
  then have "drop_bit 4 (b AND 48) = take_bit 2 (drop_bit 4 b)"
    by (simp only: drop_bit_and take_bit_eq_mask)
  then have "unat (drop_bit 4 (b AND 48)) = take_bit 2 (drop_bit 4 (unat b))"
    by (simp only: unsigned_take_bit_eq unat_drop_bit_eq)
  moreover have "(64 + t * 16 + k) div 16 = 4 + t"
    using div_qr [of k 16 "4 + t"] assms(3) by simp
  ultimately show "unat (drop_bit 4 (b AND 48)) = t"
    using assms by (simp only: take_bit_eq_mod drop_bit_eq_div) simp
  have "(64 + t * 16 + k) mod 16 = k"
    using mod_qr [of k 16 "4 + t"] assms(3) by simp
  then show "unat (b AND 15) = k"
    unfolding byte_and_15 using assms(1) by simp
qed

subsection \<open>The whole message\<close>

lemma codeRegistry_less: "c \<in> codeRegistry \<Longrightarrow> c < 256"
  by (auto simp: codeRegistry_def)

lemma optionNumberRegistry_le: "n \<in> optionNumberRegistry \<Longrightarrow> n \<le> 65804"
  by (auto simp: optionNumberRegistry_def)

lemma optionView_received: "optionView (received opt) = optionView opt"
  by (simp add: optionView_def received_def getData_def)

lemma number_received: "number (received opt) = number opt"
  by (simp add: received_def)

lemma getTokenLength_getToken: "getTokenLength m = length (getToken m)"
  by (simp add: getTokenLength_def getToken_def split: option.splits)

text \<open>
  C1.  For every valid message \<open>m\<close> (a registered code, a message ID of 16 bits, a token
  of at most 8 bytes, every option number registered and every option value within the
  length field of the wire format, the payload absent or not empty), \<open>toBuffer\<close> returns
  a buffer, and \<open>fromBuffer\<close> of that buffer returns a message with the type, code,
  message ID, token and payload of \<open>m\<close>.  Its options are those of \<open>m\<close> in the order
  of \<open>Options.sort\<close>: the same multiset, and for every option number the options with
  that number in the order they have in \<open>m\<close>.  The remote endpoint and the timestamp are
  not compared; the version is always written as 1.  \<open>Array.prototype.sort\<close> is taken
  as stable (\<open>sort_key\<close>), as ECMAScript 2019 requires.
\<close>

theorem fromBuffer_toBuffer:
  assumes "validMessage m"
  shows "\<exists>buffer m'. toBuffer m = Inr buffer
           \<and> fromBuffer optionNumberRegistry now buffer = Inr m'
           \<and> msgType m' = msgType m \<and> code m' = code m \<and> msgId m' = msgId m
           \<and> getToken m' = getToken m \<and> payload m' = payload m
           \<and> map optionView (options m') = map optionView (Options_sort (options m))
           \<and> mset (map optionView (options m')) = mset (map optionView (options m))
           \<and> (\<forall>n. map optionView (filter (\<lambda>opt. number opt = n) (options m'))
                   = map optionView (filter (\<lambda>opt. number opt = n) (options m)))"
proof -
  define sopts where "sopts = Options_sort (options m)"
  define tok where "tok = getToken m"
  define tail where "tail = (case payload m of None \<Rightarrow> [] | Some p \<Rightarrow> [0xFF] @ p)"
  have valid: "code m \<in> codeRegistry" "msgId m < 65536" "length tok \<le> 8"
      "\<forall>opt \<in> set (options m). number opt \<in> optionNumberRegistry
           \<and> length (getData opt) \<le> 65804"
      "payload m \<noteq> Some []"
    using assms by (simp_all add: validMessage_def tok_def)
  \<comment> \<open>the options\<close>
  have "sorted (map number sopts)" unfolding sopts_def Options_sort_def by (rule sorted_sort_key)
  then have srt: "sorted (0 # map number sopts)" by simp
  have "set sopts = set (options m)" by (simp add: sopts_def Options_sort_def)
  then have ok: "\<forall>opt \<in> set sopts. number opt \<in> optionNumberRegistry \<and> number opt \<le> 65804
           \<and> length (getData opt) \<le> 65804"
    using valid(4) optionNumberRegistry_le by auto
  have tl: "tail = [] \<or> hd tail = 0xFF" by (simp add: tail_def split: option.splits)
  obtain bs where bs: "serializeLoop 0 sopts = Inr bs"
      "unserialize optionNumberRegistry 0 (bs @ tail) [] = Inr ([] @ map received sopts, drop 1 tail)"
    using options_roundtrip [OF srt ok tl, of "[]"] by blast
  \<comment> \<open>encoding\<close>
  obtain b0 b1 b2 b3 where hdr: "pushUInt32 (headerWord m) = [b0, b1, b2, b3]"
      "unat b0 = 64 + typeNumber (msgType m) * 16 + length tok"
      "unat b1 = code m" "unat b2 * 256 + unat b3 = msgId m"
    using header_bytes [of m] valid(1-3) codeRegistry_less [of "code m"]
    by (auto simp: getTokenLength_getToken tok_def)
  have tokbytes: "(if getTokenLength m > 0 then (case token m of None \<Rightarrow> [] | Some t \<Rightarrow> t) else [])
      = tok"
    by (simp add: getTokenLength_def tok_def getToken_def split: option.splits)
  have sers: "(if options m \<noteq> [] then Options_serialize (options m) else Inr []) = Inr bs"
    using bs(1) by (auto simp: Options_serialize_def sopts_def Options_sort_def)
  have enc: "toBuffer m = Inr (b0 # b1 # b2 # b3 # tok @ bs @ tail)"
    by (simp add: toBuffer_def Let_def hdr(1) tokbytes sers tail_def split: option.splits)
  \<comment> \<open>decoding\<close>
  have fb: "unat (drop_bit 6 b0) = 1" "unat (drop_bit 4 (b0 AND 48)) = typeNumber (msgType m)"
      "unat (b0 AND 15) = length tok"
    using first_byte [OF hdr(2) typeNumber_less valid(3)] by blast+
  define m0 where "m0 = Message_new\<lparr> timestamp := now, msgType := msgType m, code := code m,
      msgId := msgId m \<rparr>"
  define m1 where "m1 = (if length tok > 0 then m0\<lparr> token := Some tok \<rparr> else m0)"
  define m' where "m' = m1\<lparr> options := map received sopts, payload := payload m \<rparr>"
  have tokdec: "(if length tok > 0
        then (case shiftBuffer (length tok) (tok @ bs @ tail) of
                Inl e \<Rightarrow> Inl e
              | Inr (t, r4) \<Rightarrow> (case setToken t m0 of Inl e \<Rightarrow> Inl e | Inr m1 \<Rightarrow> Inr (m1, r4)))
        else Inr (m0, tok @ bs @ tail)) = Inr (m1, bs @ tail)"
    using valid(3) by (auto simp: shiftBuffer_def setToken_def m1_def)
  have m1opts: "options m1 = []" "payload m1 = None"
    by (simp_all add: m1_def m0_def Message_new_def)
  have rest: "(if length (bs @ tail) = 0 then Inr m1
       else (case unserialize optionNumberRegistry 0 (bs @ tail) [] of
               Inl e \<Rightarrow> Inl e
             | Inr (opts, r5) \<Rightarrow>
                 (let m2 = m1\<lparr> options := opts \<rparr>
                  in if length r5 > 0 then Inr (setPayload r5 m2) else Inr m2))) = Inr m'"
  proof (cases "length (bs @ tail) = 0")
    case True
    then have e: "bs = []" "tail = []" by simp_all
    then have "map received sopts = []" using bs(2) by simp
    moreover have "payload m = None" using e(2) by (simp add: tail_def split: option.splits)
    ultimately show ?thesis using True m1opts by (simp add: m'_def)
  next
    case False
    have "(if length (drop 1 tail) > 0
           then Inr (setPayload (drop 1 tail) (m1\<lparr> options := map received sopts \<rparr>))
           else Inr (m1\<lparr> options := map received sopts \<rparr>)) = Inr m'"
      using valid(5) m1opts
      by (auto simp: tail_def m'_def setPayload_def split: option.splits)
    moreover have "unserialize optionNumberRegistry 0 (bs @ tail) []
        = Inr (map received sopts, drop 1 tail)"
      using bs(2) by simp
    ultimately show ?thesis
      by (simp only: False if_False sum.case prod.case Let_def)
  qed
  have dec: "fromBuffer optionNumberRegistry now (b0 # b1 # b2 # b3 # tok @ bs @ tail) = Inr m'"
  proof -
    let ?r = "tok @ bs @ tail"
    have ok1: "(case b0 # b1 # b2 # b3 # ?r of [] \<Rightarrow> 0 | b # _ \<Rightarrow> unat (drop_bit 6 b)) = 1"
      by (simp only: list.case fb(1))
    have s1: "shiftByte (b0 # b1 # b2 # b3 # ?r) = Inr (b0, b1 # b2 # b3 # ?r)"
      and s2: "shiftByte (b1 # b2 # b3 # ?r) = Inr (b1, b2 # b3 # ?r)"
      by (simp_all add: shiftByte_def)
    have s3: "shiftUInt16 (b2 # b3 # ?r) = Inr (msgId m, ?r)"
      using hdr(4) by (simp add: shiftUInt16_def)
    have ty: "typeOfNumber (unat (drop_bit 4 (b0 AND 48))) = msgType m"
      by (simp only: fb(2) typeOfNumber_typeNumber)
    have c: "(code m \<notin> codeRegistry) = False"
      using valid(1) by simp
    show ?thesis
      unfolding fromBuffer_def
      by (simp only: ok1 s1 s2 s3 ty c fb(3) hdr(3) Let_def sum.case prod.case simp_thms
          if_False if_True tokdec [unfolded m0_def] rest [unfolded Let_def])
  qed
  \<comment> \<open>what the decoded message holds\<close>
  have fields: "msgType m' = msgType m" "code m' = code m" "msgId m' = msgId m"
      "payload m' = payload m" "options m' = map received sopts"
    by (simp_all add: m'_def m1_def m0_def)
  have tokeq: "getToken m' = getToken m"
    by (auto simp: m'_def m1_def m0_def getToken_def tok_def Message_new_def
        split: option.splits)
  have views: "map optionView (options m') = map optionView sopts"
    by (simp add: fields(5) optionView_received comp_def)
  have multi: "mset (map optionView (options m')) = mset (map optionView (options m))"
    unfolding views by (simp add: sopts_def Options_sort_def)
  have order: "map optionView (filter (\<lambda>opt. number opt = n) (options m'))
      = map optionView (filter (\<lambda>opt. number opt = n) (options m))" for n
  proof -
    have "filter (\<lambda>opt. number opt = n) (options m')
        = map received (filter (\<lambda>opt. number opt = n) sopts)"
      by (simp add: fields(5) filter_map comp_def number_received)
    also have "filter (\<lambda>opt. number opt = n) sopts = filter (\<lambda>opt. number opt = n) (options m)"
      unfolding sopts_def Options_sort_def by (rule sort_key_stable)
    finally show ?thesis by (simp add: optionView_received comp_def)
  qed
  show ?thesis
    using enc dec fields(1-4) tokeq views multi order unfolding sopts_def by blast
qed

theorem fromBuffer_toBuffer_witness:
  "validMessage exampleMessage
   \<and> toBuffer exampleMessage = Inr [98, 69, 2, 1, 1, 2, 49, 66, 129, 65, 1, 67, 255, 7, 7]
   \<and> (\<exists>m'. fromBuffer optionNumberRegistry 0
                [98, 69, 2, 1, 1, 2, 49, 66, 129, 65, 1, 67, 255, 7, 7] = Inr m'
           \<and> msgType m' = ACK \<and> code m' = 69 \<and> msgId m' = 513 \<and> getToken m' = [1, 2]
           \<and> payload m' = Some [7, 7]
           \<and> map optionView (options m') = [(3, [66]), (11, [65]), (11, [67])])"
proof -
  have v: "validMessage exampleMessage"
    by (simp add: validMessage_def exampleMessage_def getToken_def getData_def Message_new_def codeRegistry_def optionNumberRegistry_def)
  have e: "toBuffer exampleMessage = Inr [98, 69, 2, 1, 1, 2, 49, 66, 129, 65, 1, 67, 255, 7, 7]"
    by code_simp
  have s: "map optionView (Options_sort (options exampleMessage))
      = [(3, [66]), (11, [65]), (11, [67])]"
    by code_simp
  have f: "msgType exampleMessage = ACK" "code exampleMessage = 69" "msgId exampleMessage = 513"
      "getToken exampleMessage = [1, 2]" "payload exampleMessage = Some [7, 7]"
    by (simp_all add: exampleMessage_def getToken_def)
  obtain buffer m' where r: "toBuffer exampleMessage = Inr buffer"
      "fromBuffer optionNumberRegistry 0 buffer = Inr m'"
      "msgType m' = msgType exampleMessage" "code m' = code exampleMessage"
      "msgId m' = msgId exampleMessage" "getToken m' = getToken exampleMessage"
      "payload m' = payload exampleMessage"
      "map optionView (options m') = map optionView (Options_sort (options exampleMessage))"
    using fromBuffer_toBuffer [OF v, of 0] by (elim exE conjE) (rule that)
  have b: "buffer = [98, 69, 2, 1, 1, 2, 49, 66, 129, 65, 1, 67, 255, 7, 7]"
    using r(1) unfolding e by (simp only: sum.inject)
  have d: "fromBuffer optionNumberRegistry 0
      [98, 69, 2, 1, 1, 2, 49, 66, 129, 65, 1, 67, 255, 7, 7] = Inr m'"
    using r(2) unfolding b .
  have t: "msgType m' = ACK" "code m' = 69" "msgId m' = 513" "getToken m' = [1, 2]"
      "payload m' = Some [7, 7]"
      "map optionView (options m') = [(3, [66]), (11, [65]), (11, [67])]"
    using r(3-8) unfolding s f .
  show ?thesis
    by (intro conjI exI [of _ m'] v e d t)
qed

end
